theory Spec2Isabelle
  imports Complex_Main "HOL-Library.Sublist" "HOL-Library.AList"
begin

section \<open>Python strings and dictionaries\<close>

text \<open>
  A Python \<open>str\<close> is modelled as a \<open>string\<close>. Case mapping is the ASCII one: the letters
  \<open>A\<close>..\<open>Z\<close> are the upper-case characters and \<open>lower\<close> maps them to \<open>a\<close>..\<open>z\<close>; every
  other character is uncased and left alone.
\<close>

definition isupper :: "char \<Rightarrow> bool" where
  "isupper c = (65 \<le> (of_char c :: nat) \<and> (of_char c :: nat) \<le> 90)"

definition lower_char :: "char \<Rightarrow> char" where
  "lower_char c = (if isupper c then char_of ((of_char c :: nat) + 32) else c)"

definition lower :: "string \<Rightarrow> string" where
  "lower s = map lower_char s"

text \<open>\<open>sub in s\<close>: \<open>sub\<close> occurs in \<open>s\<close> as a contiguous substring.\<close>

fun py_in :: "string \<Rightarrow> string \<Rightarrow> bool" where
  "py_in sub [] = (sub = [])"
| "py_in sub (c # cs) = (prefix sub (c # cs) \<or> py_in sub cs)"

text \<open>\<open>sep.join(xs)\<close>.\<close>

fun join :: "string \<Rightarrow> string list \<Rightarrow> string" where
  "join sep [] = []"
| "join sep [x] = x"
| "join sep (x # y # ys) = x @ sep @ join sep (y # ys)"

text \<open>\<open>str(n)\<close> for an integer, in decimal.\<close>

definition digit_char :: "nat \<Rightarrow> char" where
  "digit_char d = char_of (48 + d)"

function str_nat :: "nat \<Rightarrow> string" where
  "str_nat n = (if n < 10 then [digit_char n] else str_nat (n div 10) @ [digit_char (n mod 10)])"
  by pat_completeness auto
termination
  by (relation "measure id") auto

declare str_nat.simps [simp del]

definition str_int :: "int \<Rightarrow> string" where
  "str_int i = (if i < 0 then CHR ''-'' # str_nat (nat (- i)) else str_nat (nat i))"

text \<open>
  \<open>f"{x:.2f}"\<close> for a non-negative number: two decimals, rounded to the nearest hundredth.
  The scores formatted with it are multiples of one tenth, so no tie is ever rounded.
\<close>

definition format_2f :: "rat \<Rightarrow> string" where
  "format_2f x =
     (let n = nat \<lfloor>x * 100 + 1 / 2\<rfloor>
      in str_nat (n div 100) @ ''.'' @ [digit_char (n div 10 mod 10), digit_char (n mod 10)])"

text \<open>
  An email is a dictionary from field names to strings; \<open>d.get(k, default)\<close> reads a field
  that may be absent.
\<close>

type_synonym email = "string \<rightharpoonup> string"

definition dict_get :: "email \<Rightarrow> string \<Rightarrow> string \<Rightarrow> string" where
  "dict_get d k dflt = (case d k of None \<Rightarrow> dflt | Some v \<Rightarrow> v)"

datatype py_error = ZeroDivisionError

text \<open>True division \<open>a / b\<close> raises on a zero divisor.\<close>

definition py_truediv :: "rat \<Rightarrow> rat \<Rightarrow> py_error + rat" where
  "py_truediv a b = (if b = 0 then Inl ZeroDivisionError else Inr (a / b))"

section \<open>Regular expressions\<close>

text \<open>
  The patterns given to \<open>re.match\<close> are sequences of literal text and \<open>.*\<close>. \<open>re.match\<close>
  anchors the pattern at the start of the string and does not require it to reach the end;
  \<open>.\<close> matches every character but the newline.
\<close>

datatype token = Lit string | DotStar

fun re_match :: "token list \<Rightarrow> string \<Rightarrow> bool" where
  "re_match [] s = True"
| "re_match (Lit l # ps) s = (prefix l s \<and> re_match ps (drop (length l) s))"
| "re_match (DotStar # ps) [] = re_match ps []"
| "re_match (DotStar # ps) (c # cs) =
     (re_match ps (c # cs) \<or> (c \<noteq> CHR 0x0A \<and> re_match (DotStar # ps) cs))"

text \<open>
  \<open>re.search(r'<([^>]+)>', s)\<close>: group 1 of the leftmost match, that is the text after the
  first \<open><\<close> that is followed by at least one character other than \<open>>\<close> and then by \<open>>\<close>.
\<close>

fun search_angle :: "string \<Rightarrow> string option" where
  "search_angle [] = None"
| "search_angle (c # cs) =
     (if c = CHR ''<'' \<and> takeWhile (\<lambda>x. x \<noteq> CHR ''>'') cs \<noteq> []
         \<and> dropWhile (\<lambda>x. x \<noteq> CHR ''>'') cs \<noteq> []
      then Some (takeWhile (\<lambda>x. x \<noteq> CHR ''>'') cs)
      else search_angle cs)"

section \<open>EmailFilter (email\_filter.py)\<close>

definition NO_REPLY_PATTERNS :: "token list list" where
  "NO_REPLY_PATTERNS =
    [[Lit ''noreply@'', DotStar],
     [Lit ''no-reply@'', DotStar],
     [Lit ''donotreply@'', DotStar],
     [Lit ''do-not-reply@'', DotStar],
     [Lit ''notifications@'', DotStar],
     [Lit ''alerts@'', DotStar],
     [Lit ''automated@'', DotStar],
     [Lit ''system@'', DotStar],
     [Lit ''mailer-daemon@'', DotStar],
     [Lit ''postmaster@'', DotStar]]"

definition SUSPICIOUS_SENDERS :: "token list list" where
  "SUSPICIOUS_SENDERS =
    [[DotStar, Lit ''@'', DotStar, Lit ''paypal.'', DotStar],
     [DotStar, Lit ''@'', DotStar, Lit ''banking.'', DotStar],
     [DotStar, Lit ''@'', DotStar, Lit ''amazon.'', DotStar],
     [DotStar, Lit ''@'', DotStar, Lit ''ebay.'', DotStar],
     [DotStar, Lit ''@'', DotStar, Lit ''lottery.'', DotStar],
     [DotStar, Lit ''@'', DotStar, Lit ''winner.'', DotStar],
     [DotStar, Lit ''@'', DotStar, Lit ''prize.'', DotStar],
     [DotStar, Lit ''@'', DotStar, Lit ''kilpailu.'', DotStar],
     [DotStar, Lit ''@'', DotStar, Lit ''arvonta.'', DotStar],
     [DotStar, Lit ''voita@'', DotStar]]"

definition WHITELIST_DOMAINS :: "string list" where
  "WHITELIST_DOMAINS =
    [''paypal.com'', ''amazon.com'', ''amazon.co.uk'', ''ebay.com'', ''google.com'',
     ''microsoft.com'', ''apple.com'', ''facebook.com'', ''linkedin.com'']"

definition SPAM_KEYWORDS :: "string list" where
  "SPAM_KEYWORDS =
    [''lottery'', ''winner'', ''million dollars'', ''inheritance'', ''bitcoin'',
     ''investment opportunity'', ''claim your'', ''free money'', ''jackpot'',
     ''casino'', ''get rich'', ''earn money fast'', ''prize winner'',
     ''voita'', ''arvonta'', ''kilpailu'', ''ilmainen'', ''voittaja'',
     ''act now'', ''limited time'', ''expires today'', ''urgent action required'',
     ''verify your account'', ''suspended account'', ''click here immediately'',
     ''confirm your identity'', ''update payment information'',
     ''xxx'', ''adult'', ''singles'', ''dating'',
     ''viagra'', ''cialis'', ''pharmacy'', ''pills'', ''medication'']"

text \<open>The loop returns at the first pattern that matches.\<close>

definition is_no_reply_address :: "string \<Rightarrow> bool" where
  "is_no_reply_address email_address =
     (let email_lower = lower email_address
      in list_ex (\<lambda>pattern. re_match pattern email_lower) NO_REPLY_PATTERNS)"

definition is_suspicious_sender :: "string \<Rightarrow> bool" where
  "is_suspicious_sender email_address =
     (let email_address =
            (if CHR ''<'' \<in> set email_address \<and> CHR ''>'' \<in> set email_address
             then (case search_angle email_address of
                     Some g \<Rightarrow> g
                   | None \<Rightarrow> email_address)
             else email_address);
          email_lower = lower email_address
      in if list_ex (\<lambda>domain. suffix (CHR ''@'' # domain) email_lower) WHITELIST_DOMAINS
         then False
         else list_ex (\<lambda>pattern. re_match pattern email_lower) SUSPICIOUS_SENDERS)"

definition suspicious_extensions :: "string list" where
  "suspicious_extensions = [''.exe'', ''.zip'', ''.rar'', ''.bat'', ''.cmd'', ''.scr'']"

definition url_shorteners :: "string list" where
  "url_shorteners = [''bit.ly'', ''tinyurl.com'', ''goo.gl'', ''ow.ly'', ''t.co'']"

text \<open>
  The running pair \<open>(score, reasons)\<close> of \<open>calculate_spam_score\<close>, and the bodies of its
  three loops. Scores are exact rationals: \<open>0.3\<close> is \<open>3/10\<close>.
\<close>

type_synonym scoring = "rat \<times> string list"

definition keyword_step :: "string \<Rightarrow> string \<Rightarrow> string \<Rightarrow> nat \<times> string list \<Rightarrow> nat \<times> string list"
  where
  "keyword_step subject body keyword acc =
     (case acc of (spam_keyword_count, found_keywords) \<Rightarrow>
        if py_in keyword subject \<or> py_in keyword body
        then (spam_keyword_count + 1, found_keywords @ [keyword])
        else (spam_keyword_count, found_keywords))"

definition extension_step :: "string \<Rightarrow> string \<Rightarrow> scoring \<Rightarrow> scoring" where
  "extension_step body ext acc =
     (case acc of (score, reasons) \<Rightarrow>
        if py_in ext body
        then (score + 3 / 10, reasons @ [''Suspicious attachment type: '' @ ext])
        else (score, reasons))"

definition shortener_step :: "string \<Rightarrow> string \<Rightarrow> scoring \<Rightarrow> scoring" where
  "shortener_step body shortener acc =
     (case acc of (score, reasons) \<Rightarrow>
        if py_in shortener body
        then (score + 2 / 10, reasons @ [''URL shortener detected: '' @ shortener])
        else (score, reasons))"

text \<open>
  The capitalisation block: the ratio is computed only for a non-empty subject, and the
  division is the one place of the function that could raise.
\<close>

definition caps_check :: "string \<Rightarrow> scoring \<Rightarrow> py_error + scoring" where
  "caps_check subject acc =
     (case acc of (score, reasons) \<Rightarrow>
        if subject \<noteq> []
        then (case py_truediv (of_nat (length (filter isupper subject)))
                              (of_nat (length subject)) of
                Inl err \<Rightarrow> Inl err
              | Inr caps_ratio \<Rightarrow>
                  if caps_ratio > 1 / 2
                  then Inr (score + 2 / 10, reasons @ [''Excessive capitalization''])
                  else Inr (score, reasons))
        else Inr (score, reasons))"

definition calculate_spam_score :: "email \<Rightarrow> py_error + scoring" where
  "calculate_spam_score email_data =
     (let subject = lower (dict_get email_data ''subject'' '''');
          body = lower (dict_get email_data ''body'' '''');
          from_address = lower (dict_get email_data ''from'' '''');
          acc = (0, []);
          acc = (if is_no_reply_address from_address
                 then (fst acc + 3 / 10, snd acc @ [''No-reply address''])
                 else acc);
          acc = (if is_suspicious_sender from_address
                 then (fst acc + 5 / 10, snd acc @ [''Suspicious sender pattern''])
                 else acc);
          kw = fold (keyword_step subject body) SPAM_KEYWORDS (0, []);
          acc = (if fst kw > 0
                 then (fst acc + min (5 / 10) (of_nat (fst kw) * (1 / 10)),
                       snd acc @ [''Spam keywords found: '' @ join '', '' (take 5 (snd kw))])
                 else acc)
      in case caps_check subject acc of
           Inl err \<Rightarrow> Inl err
         | Inr acc \<Rightarrow>
             (let acc = fold (extension_step body) suspicious_extensions acc;
                  acc = fold (shortener_step body) url_shorteners acc
              in Inr (min 1 (fst acc), snd acc)))"

definition payment_keywords :: "string list" where
  "payment_keywords = [''receipt'', ''payment'', ''invoice'', ''transaction'']"

definition payment_domains :: "string list" where
  "payment_domains = [''paypal'', ''stripe'', ''square'', ''venmo'']"

text \<open>
  The nested loops over payment keywords and payment domains return at the first keyword
  found in the subject for which some domain token occurs in the sender.
\<close>

fun payment_scan :: "string list \<Rightarrow> string \<Rightarrow> string \<Rightarrow> bool \<times> string" where
  "payment_scan [] subject from_address = (False, [])"
| "payment_scan (keyword # ks) subject from_address =
     (if py_in keyword subject
      then (case find (\<lambda>domain. py_in domain (lower from_address)) payment_domains of
              Some domain \<Rightarrow> (True, ''Payment processor email ('' @ domain @ '')'')
            | None \<Rightarrow> payment_scan ks subject from_address)
      else payment_scan ks subject from_address)"

definition should_skip_email :: "email \<Rightarrow> rat \<Rightarrow> py_error + (bool \<times> string)" where
  "should_skip_email email_data spam_threshold =
     (let from_address = dict_get email_data ''from'' ''''
      in if is_no_reply_address from_address then Inr (True, ''No-reply address'')
         else (case calculate_spam_score email_data of
                 Inl err \<Rightarrow> Inl err
               | Inr (spam_score, reasons) \<Rightarrow>
                   if spam_score \<ge> spam_threshold
                   then Inr (True, ''High spam score ('' @ format_2f spam_score @ ''): ''
                                     @ join ''; '' reasons)
                   else (let subject = lower (dict_get email_data ''subject'' '''')
                         in Inr (payment_scan payment_keywords subject from_address))))"

section \<open>EmailProcessor: classification (email\_processor.py)\<close>

text \<open>The keyword tables of \<open>_categorize_email\<close>, in the order the dictionary lists them.\<close>

definition complaint_keywords :: "string list" where
  "complaint_keywords =
    [''complaint'', ''disappointed'', ''unhappy'', ''terrible'', ''awful'', ''poor'',
     ''unsatisfied'', ''frustrated'', ''upset'', ''angry'', ''annoyed'', ''dissatisfied'',
     ''problem with'', ''not working'', ''does not work'', ''failed'', ''failing'',
     ''issue with'', ''bad experience'', ''bad service'', ''poor quality'']"

definition product_support_keywords :: "string list" where
  "product_support_keywords =
    [''login'', ''password'', ''error'', ''not working'', ''help'', ''how to'', ''does not work'',
     ''broken'', ''bug'', ''technical'', ''support'', ''assistance'', ''problem'',
     ''troubleshoot'', ''issue'', ''fix'', ''solution'']"

definition feature_request_keywords :: "string list" where
  "feature_request_keywords =
    [''feature'', ''suggestion'', ''improve'', ''enhancement'', ''add'', ''missing'',
     ''should have'', ''would be nice'', ''could you add'', ''please include'',
     ''consider adding'', ''new feature'', ''functionality'', ''capability'']"

definition billing_question_keywords :: "string list" where
  "billing_question_keywords =
    [''bill'', ''charge'', ''payment'', ''refund'', ''subscription'', ''price'', ''cost'',
     ''discount'', ''invoice'', ''credit card'', ''transaction'', ''receipt'',
     ''cancellation'', ''renewal'', ''billing'', ''charged'', ''fee'', ''pricing'']"

definition general_feedback_keywords :: "string list" where
  "general_feedback_keywords =
    [''thank'', ''great'', ''love'', ''awesome'', ''excellent'', ''amazing'', ''good'',
     ''appreciate'', ''feedback'', ''enjoyed'', ''wonderful'', ''fantastic'',
     ''satisfied'', ''helpful'', ''impressive'']"

definition urgent_request_keywords :: "string list" where
  "urgent_request_keywords =
    [''urgent'', ''emergency'', ''asap'', ''immediate'', ''critical'', ''important'',
     ''time sensitive'', ''deadline'', ''quickly'', ''rush'', ''priority'', ''immediately'',
     ''as soon as possible'', ''promptly'', ''fast'', ''today'']"

definition spam_category_keywords :: "string list" where
  "spam_category_keywords =
    [''lottery'', ''million dollars'', ''bitcoin'', ''investment opportunity'',
     ''inheritance'', ''claim your'', ''free money'',
     ''winner'', ''jackpot'', ''casino'', ''earn money fast'', ''get rich'']"

definition categories :: "(string \<times> string list) list" where
  "categories =
    [(''complaint'', complaint_keywords),
     (''product_support'', product_support_keywords),
     (''feature_request'', feature_request_keywords),
     (''billing_question'', billing_question_keywords),
     (''general_feedback'', general_feedback_keywords),
     (''urgent_request'', urgent_request_keywords),
     (''spam'', spam_category_keywords)]"

definition priority_order :: "string list" where
  "priority_order =
    [''urgent_request'', ''complaint'', ''billing_question'', ''product_support'',
     ''feature_request'', ''spam'', ''general_feedback'', ''customer_inquiry'']"

text \<open>
  The state of the first loop of \<open>_categorize_email\<close>: the dictionary \<open>category_matches\<close>
  (kept in insertion order) and the list \<open>matched_keywords\<close>. The inner loop appends a
  keyword found in the text to the category's list and to \<open>matched_keywords\<close>.
\<close>

type_synonym matches = "(string \<times> string list) list \<times> string list"

definition keyword_match_step :: "string \<Rightarrow> string \<Rightarrow> string \<Rightarrow> matches \<Rightarrow> matches" where
  "keyword_match_step text category keyword acc =
     (case acc of (category_matches, matched_keywords) \<Rightarrow>
        if py_in keyword text
        then (AList.update category
                (case map_of category_matches category of
                   Some ks \<Rightarrow> ks @ [keyword]
                 | None \<Rightarrow> [keyword])
                category_matches,
              matched_keywords @ [keyword])
        else (category_matches, matched_keywords))"

definition category_step :: "string \<Rightarrow> string \<times> string list \<Rightarrow> matches \<Rightarrow> matches" where
  "category_step text entry acc =
     (case entry of (category, keywords) \<Rightarrow>
        case acc of (category_matches, matched_keywords) \<Rightarrow>
          fold (keyword_match_step text category) keywords
            (AList.update category [] category_matches, matched_keywords))"

definition categorize_email :: "email \<Rightarrow> string \<times> string list" where
  "categorize_email email_data =
     (let subject = lower (dict_get email_data ''subject'' []);
          body = lower (dict_get email_data ''body'' []);
          text = subject @ '' '' @ body;
          acc = fold (category_step text) categories ([], []);
          category_matches = fst acc;
          matched_keywords = snd acc;
          matched_category =
            find (\<lambda>category. case map_of category_matches category of
                                 Some ks \<Rightarrow> ks \<noteq> []
                               | None \<Rightarrow> False) priority_order
      in case matched_category of
           None \<Rightarrow> (''customer_inquiry'', [])
         | Some category \<Rightarrow> (category, matched_keywords))"

definition positive_words :: "string list" where
  "positive_words =
    [''good'', ''great'', ''excellent'', ''wonderful'', ''amazing'', ''love'', ''like'',
     ''happy'', ''pleased'', ''satisfied'', ''thank'', ''thanks'', ''helpful'', ''appreciate'',
     ''awesome'', ''fantastic'', ''perfect'', ''best'', ''impressed'']"

definition negative_words :: "string list" where
  "negative_words =
    [''bad'', ''poor'', ''terrible'', ''awful'', ''horrible'', ''disappointed'', ''upset'',
     ''angry'', ''unhappy'', ''not working'', ''problem'', ''issue'', ''broken'', ''error'',
     ''failed'', ''wrong'', ''worst'', ''hate'', ''dislike'', ''annoyed'', ''frustrating'']"

definition analyze_sentiment :: "email \<Rightarrow> string" where
  "analyze_sentiment email_data =
     (let text = lower (dict_get email_data ''subject'' [] @ '' ''
                        @ dict_get email_data ''body'' []);
          positive_count = length (filter (\<lambda>word. py_in word text) positive_words);
          negative_count = length (filter (\<lambda>word. py_in word text) negative_words)
      in if positive_count > negative_count then ''positive''
         else if negative_count > positive_count then ''negative''
         else ''neutral'')"

definition determine_priority :: "email \<Rightarrow> string \<Rightarrow> string \<Rightarrow> string" where
  "determine_priority email_data category sentiment =
     (if category \<in> set [''complaint'', ''urgent_request''] then ''high''
      else if category \<in> set [''product_support'', ''billing_question'']
              \<or> sentiment = ''negative'' then ''medium''
      else ''low'')"

section \<open>EmailTracker (email\_tracker.py)\<close>

text \<open>
  A \<open>datetime\<close> is a count of microseconds, the resolution of Python's naive datetimes;
  \<open>isoformat\<close> followed by \<open>fromisoformat\<close> gives the datetime back, so the ledger stores
  the datetime itself. \<open>timedelta(days=d)\<close> and \<open>timedelta(hours=h)\<close> are microsecond
  counts as well, and \<open>.days\<close> of a difference rounds towards minus infinity. The range
  limits of \<open>datetime\<close> (years 1 to 9999) are not modelled.
\<close>

type_synonym datetime = int

definition timedelta_days :: "int \<Rightarrow> int" where
  "timedelta_days d = d * 86400000000"

definition timedelta_hours :: "int \<Rightarrow> int" where
  "timedelta_hours h = h * 3600000000"

definition days_of :: "int \<Rightarrow> int" where
  "days_of delta = delta div 86400000000"

text \<open>
  One ledger entry, with the five keys \<open>mark_as_processed\<close> writes. The dictionary
  \<open>processed_emails["emails"]\<close> is an association list in insertion order; either key of
  \<open>processed_emails\<close> may be missing from a loaded file.
\<close>

record ledger_record =
  processed_at :: datetime
  rec_subject :: string
  rec_from :: string
  rec_category :: string
  response_sent :: bool

record history =
  emails :: "(string \<times> ledger_record) list option"
  last_cleanup :: "datetime option"

record tracker =
  max_history_days :: int
  processed_emails :: history

text \<open>\<open>self.processed_emails.get("emails", {})\<close>.\<close>

definition get_emails :: "tracker \<Rightarrow> (string \<times> ledger_record) list" where
  "get_emails self = (case emails (processed_emails self) of None \<Rightarrow> [] | Some es \<Rightarrow> es)"

text \<open>
  Every function that reads the clock takes its readings as arguments. A cleanup and a
  count take one reading \<open>now\<close>. \<open>mark_as_processed\<close> takes two: \<open>now\<close>, the reading it
  stores in the entry, and \<open>later\<close>, the reading it takes after the history is saved, for
  the test of the periodic cleanup and, inside the cleanup, for the cutoff; a clock that
  does not run backwards gives \<open>now \<le> later\<close>. Saving the history to its file changes
  nothing in the tracker and is left out. Names that begin with an underscore in the
  source are written without it.
\<close>

definition cleanup_old_entries :: "tracker \<Rightarrow> datetime \<Rightarrow> tracker" where
  "cleanup_old_entries self now =
     (let cutoff_date = now - timedelta_days (max_history_days self);
          emails_to_remove =
            fold (\<lambda>entry acc. case entry of (email_id, data) \<Rightarrow>
                    if processed_at data < cutoff_date then acc @ [email_id] else acc)
                 (get_emails self) [];
          self = (case emails (processed_emails self) of
                    None \<Rightarrow> self
                  | Some es \<Rightarrow>
                      self\<lparr>processed_emails :=
                        (processed_emails self)\<lparr>emails :=
                          Some (fold AList.delete emails_to_remove es)\<rparr>\<rparr>)
      in if emails_to_remove \<noteq> []
         then self\<lparr>processed_emails := (processed_emails self)\<lparr>last_cleanup := Some now\<rparr>\<rparr>
         else self)"

definition is_processed :: "tracker \<Rightarrow> string \<Rightarrow> bool" where
  "is_processed self email_id = (email_id \<in> fst ` set (get_emails self))"

definition mark_as_processed ::
  "tracker \<Rightarrow> string \<Rightarrow> email \<Rightarrow> bool \<Rightarrow> datetime \<Rightarrow> datetime \<Rightarrow> tracker" where
  "mark_as_processed self email_id email_data sent now later =
     (let es = get_emails self;
          entry = \<lparr>processed_at = now,
                   rec_subject = take 100 (dict_get email_data ''subject'' []),
                   rec_from = dict_get email_data ''from'' [],
                   rec_category = dict_get email_data ''category'' ''unknown'',
                   response_sent = sent\<rparr>;
          self = self\<lparr>processed_emails :=
                   (processed_emails self)\<lparr>emails := Some (AList.update email_id entry es)\<rparr>\<rparr>;
          last = (case last_cleanup (processed_emails self) of None \<Rightarrow> later | Some l \<Rightarrow> l)
      in if days_of (later - last) \<ge> 1 then cleanup_old_entries self later else self)"

definition count_sender_emails :: "tracker \<Rightarrow> string \<Rightarrow> int \<Rightarrow> datetime \<Rightarrow> int" where
  "count_sender_emails self sender hours now =
     (let cutoff_time = now - timedelta_hours hours;
          sender_lower = lower sender
      in fold (\<lambda>email_data count.
                 if processed_at email_data \<ge> cutoff_time
                 then (if lower (rec_from email_data) = sender_lower then count + 1 else count)
                 else count)
              (map snd (get_emails self)) 0)"

section \<open>EmailAutomationSystem (main.py)\<close>

record sys_config =
  max_emails_per_sender :: int
  spam_threshold :: rat
  rate_limit_window :: int

record automation =
  email_tracker :: tracker
  config :: sys_config

definition should_process_email :: "automation \<Rightarrow> email \<Rightarrow> datetime \<Rightarrow> py_error + (bool \<times> string)"
  where
  "should_process_email self email_data now =
     (let email_id = email_data ''id'';
          from_address = dict_get email_data ''from'' []
      in if (case email_id of None \<Rightarrow> False | Some i \<Rightarrow> is_processed (email_tracker self) i)
         then Inr (False, ''Already processed'')
         else (case should_skip_email email_data (spam_threshold (config self)) of
                 Inl err \<Rightarrow> Inl err
               | Inr (should_skip, skip_reason) \<Rightarrow>
                   if should_skip then Inr (False, skip_reason)
                   else (let sender_count =
                               count_sender_emails (email_tracker self) from_address
                                 (rate_limit_window (config self)) now
                         in if sender_count \<ge> max_emails_per_sender (config self)
                            then Inr (False,
                                   ''Rate limit exceeded for sender (max ''
                                   @ str_int (max_emails_per_sender (config self))
                                   @ '' per '' @ str_int (rate_limit_window (config self))
                                   @ ''h)'')
                            else Inr (True, []))))"

section \<open>The contributions to the spam score\<close>

text \<open>
  The summands of the score of \<open>calculate_spam_score\<close> and the reasons it lists, one
  definition for each block of the function, read off the block's condition and increment.
\<close>

definition keyword_hits :: "email \<Rightarrow> string list" where
  "keyword_hits e =
     filter (\<lambda>keyword. py_in keyword (lower (dict_get e ''subject'' []))
                       \<or> py_in keyword (lower (dict_get e ''body'' []))) SPAM_KEYWORDS"

definition extension_hits :: "email \<Rightarrow> string list" where
  "extension_hits e =
     filter (\<lambda>ext. py_in ext (lower (dict_get e ''body'' []))) suspicious_extensions"

definition shortener_hits :: "email \<Rightarrow> string list" where
  "shortener_hits e =
     filter (\<lambda>shortener. py_in shortener (lower (dict_get e ''body'' []))) url_shorteners"

definition caps_fires :: "email \<Rightarrow> bool" where
  "caps_fires e =
     (let subject = lower (dict_get e ''subject'' [])
      in subject \<noteq> []
         \<and> (of_nat (length (filter isupper subject)) :: rat) / of_nat (length subject) > 1 / 2)"

definition no_reply_contribution :: "email \<Rightarrow> rat" where
  "no_reply_contribution e =
     (if is_no_reply_address (lower (dict_get e ''from'' [])) then 3 / 10 else 0)"

definition suspicious_contribution :: "email \<Rightarrow> rat" where
  "suspicious_contribution e =
     (if is_suspicious_sender (lower (dict_get e ''from'' [])) then 5 / 10 else 0)"

definition keyword_contribution :: "email \<Rightarrow> rat" where
  "keyword_contribution e = min (5 / 10) (of_nat (length (keyword_hits e)) * (1 / 10))"

definition caps_contribution :: "email \<Rightarrow> rat" where
  "caps_contribution e = (if caps_fires e then 2 / 10 else 0)"

definition attachment_contribution :: "email \<Rightarrow> rat" where
  "attachment_contribution e = of_nat (length (extension_hits e)) * (3 / 10)"

definition shortener_contribution :: "email \<Rightarrow> rat" where
  "shortener_contribution e = of_nat (length (shortener_hits e)) * (2 / 10)"

definition other_contributions :: "email \<Rightarrow> rat" where
  "other_contributions e =
     no_reply_contribution e + keyword_contribution e + caps_contribution e
     + attachment_contribution e + shortener_contribution e"

definition spam_reasons :: "email \<Rightarrow> string list" where
  "spam_reasons e =
     (if is_no_reply_address (lower (dict_get e ''from'' [])) then [''No-reply address''] else [])
     @ (if is_suspicious_sender (lower (dict_get e ''from'' []))
        then [''Suspicious sender pattern''] else [])
     @ (if keyword_hits e \<noteq> []
        then [''Spam keywords found: '' @ join '', '' (take 5 (keyword_hits e))] else [])
     @ (if caps_fires e then [''Excessive capitalization''] else [])
     @ map (\<lambda>ext. ''Suspicious attachment type: '' @ ext) (extension_hits e)
     @ map (\<lambda>shortener. ''URL shortener detected: '' @ shortener) (shortener_hits e)"

section \<open>The sender address seen by the whitelist\<close>

text \<open>
  The address \<open>is_suspicious_sender\<close> works on: the text between angle brackets when the
  field has both brackets and the search finds a bracketed text, the whole field otherwise.
  A sender is whitelisted when that address, in lower case, ends with \<open>@\<close> and a
  whitelisted domain; it matches a pattern when one of \<open>SUSPICIOUS_SENDERS\<close> matches it.
\<close>

definition sender_address :: "string \<Rightarrow> string" where
  "sender_address email_address =
     (if CHR ''<'' \<in> set email_address \<and> CHR ''>'' \<in> set email_address
      then (case search_angle email_address of
              Some g \<Rightarrow> g
            | None \<Rightarrow> email_address)
      else email_address)"

definition whitelisted :: "string \<Rightarrow> bool" where
  "whitelisted email_address =
     list_ex (\<lambda>domain. suffix (CHR ''@'' # domain) (lower (sender_address email_address)))
       WHITELIST_DOMAINS"

definition matches_suspicious_pattern :: "string \<Rightarrow> bool" where
  "matches_suspicious_pattern email_address =
     list_ex (\<lambda>pattern. re_match pattern (lower (sender_address email_address)))
       SUSPICIOUS_SENDERS"

section \<open>Absent fields read as empty strings\<close>

text \<open>
  The email with its three text fields made explicit: an absent \<open>subject\<close>, \<open>body\<close> or
  \<open>from\<close> is stored as the empty string, every other field is untouched.
\<close>

definition with_defaults :: "email \<Rightarrow> email" where
  "with_defaults e =
     e(''subject'' \<mapsto> dict_get e ''subject'' [],
       ''body'' \<mapsto> dict_get e ''body'' [],
       ''from'' \<mapsto> dict_get e ''from'' [])"

section \<open>The category order as the specification states it\<close>

text \<open>
  The text that is searched, the keyword table of a category, and the first category of
  the stated order (seven names, \<open>customer_inquiry\<close> not among them) whose table has a
  keyword occurring in the text.
\<close>

definition email_text :: "email \<Rightarrow> string" where
  "email_text e = lower (dict_get e ''subject'' []) @ '' '' @ lower (dict_get e ''body'' [])"

definition category_keywords :: "string \<Rightarrow> string list" where
  "category_keywords c = (case map_of categories c of Some ks \<Rightarrow> ks | None \<Rightarrow> [])"

definition spec_priority_order :: "string list" where
  "spec_priority_order =
    [''urgent_request'', ''complaint'', ''billing_question'', ''product_support'',
     ''feature_request'', ''spam'', ''general_feedback'']"

definition has_match :: "string \<Rightarrow> string \<Rightarrow> bool" where
  "has_match text c = list_ex (\<lambda>keyword. py_in keyword text) (category_keywords c)"

definition first_matching_category :: "string \<Rightarrow> string option" where
  "first_matching_category text = find (has_match text) spec_priority_order"

definition all_matched_keywords :: "string \<Rightarrow> string list" where
  "all_matched_keywords text =
     concat (map (\<lambda>entry. filter (\<lambda>keyword. py_in keyword text) (snd entry)) categories)"

section \<open>Ledger entries and sequences of calls\<close>

text \<open>
  The entry \<open>mark_as_processed\<close> writes, the cutoff of a cleanup, and a sequence of calls
  of \<open>mark_as_processed\<close>, each with its arguments and the two clock readings of the call.
\<close>

definition ledger_entry :: "email \<Rightarrow> bool \<Rightarrow> datetime \<Rightarrow> ledger_record" where
  "ledger_entry email_data sent now =
     \<lparr>processed_at = now,
      rec_subject = take 100 (dict_get email_data ''subject'' []),
      rec_from = dict_get email_data ''from'' [],
      rec_category = dict_get email_data ''category'' ''unknown'',
      response_sent = sent\<rparr>"

definition cutoff_date :: "tracker \<Rightarrow> datetime \<Rightarrow> datetime" where
  "cutoff_date self now = now - timedelta_days (max_history_days self)"

text \<open>
  The test \<open>mark_as_processed\<close> makes before it runs the cleanup: a day or more between
  the \<open>last_cleanup\<close> stamp and the reading \<open>later\<close>; a history without the stamp counts
  from \<open>later\<close> itself.
\<close>

definition cleanup_due :: "tracker \<Rightarrow> datetime \<Rightarrow> bool" where
  "cleanup_due self later =
     (1 \<le> days_of (later - (case last_cleanup (processed_emails self) of
                               None \<Rightarrow> later | Some l \<Rightarrow> l)))"

fun mark_all ::
  "tracker \<Rightarrow> (string \<times> email \<times> bool \<times> datetime \<times> datetime) list \<Rightarrow> tracker" where
  "mark_all self [] = self"
| "mark_all self ((email_id, email_data, sent, now, later) # calls) =
     mark_all (mark_as_processed self email_id email_data sent now later) calls"

text \<open>
  The ledger entries inside the trailing rate-limit window whose sender is the given one,
  compared in lower case.
\<close>

definition sender_records_in_window ::
  "tracker \<Rightarrow> string \<Rightarrow> int \<Rightarrow> datetime \<Rightarrow> (string \<times> ledger_record) list" where
  "sender_records_in_window self sender hours now =
     filter (\<lambda>entry. now - timedelta_hours hours \<le> processed_at (snd entry)
                     \<and> lower (rec_from (snd entry)) = lower sender)
       (get_emails self)"

section \<open>Strings, patterns and the loops of the filter\<close>

lemma py_in_iff: "py_in sub s \<longleftrightarrow> (\<exists>a b. s = a @ sub @ b)"
proof (induction s)
  case Nil
  then show ?case by auto
next
  case (Cons c cs)
  show ?case
  proof
    assume "py_in sub (c # cs)"
    then consider "prefix sub (c # cs)" | "py_in sub cs" by auto
    then show "\<exists>a b. c # cs = a @ sub @ b"
    proof cases
      case 1
      then obtain b where "c # cs = sub @ b" by (auto simp: prefix_def)
      then have "c # cs = [] @ sub @ b" by simp
      then show ?thesis by blast
    next
      case 2
      then obtain a b where "cs = a @ sub @ b" using Cons.IH by blast
      then have "c # cs = (c # a) @ sub @ b" by simp
      then show ?thesis by blast
    qed
  next
    assume "\<exists>a b. c # cs = a @ sub @ b"
    then obtain a b where ab: "c # cs = a @ sub @ b" by blast
    show "py_in sub (c # cs)"
    proof (cases a)
      case Nil
      then have "prefix sub (c # cs)" using ab by (simp add: prefix_def)
      then show ?thesis by simp
    next
      case (Cons x a')
      then have "cs = a' @ sub @ b" using ab by simp
      then have "py_in sub cs" using Cons.IH by blast
      then show ?thesis by simp
    qed
  qed
qed

lemma of_char_lower_char: "isupper c \<Longrightarrow> (of_char (lower_char c) :: nat) = of_char c + 32"
  by (simp add: lower_char_def isupper_def)

lemma not_isupper_lower_char: "\<not> isupper (lower_char c)"
proof (cases "isupper c")
  case True
  then have "(of_char (lower_char c) :: nat) = of_char c + 32" by (rule of_char_lower_char)
  then show ?thesis using True by (simp add: isupper_def)
next
  case False
  then show ?thesis by (simp add: lower_char_def)
qed

lemma filter_isupper_lower: "filter isupper (lower s) = []"
  by (simp add: lower_def filter_empty_conv not_isupper_lower_char)

lemma lower_append: "lower (a @ b) = lower a @ lower b"
  by (simp add: lower_def)

lemma py_in_lower: "py_in sub s \<Longrightarrow> py_in (lower sub) (lower s)"
  by (metis py_in_iff lower_append)

lemma re_match_DotStar_end: "re_match [DotStar] s"
  by (cases s) simp_all

lemma re_match_prefix_pattern: "re_match [Lit p, DotStar] s = prefix p s"
  by (simp add: re_match_DotStar_end)

lemma fold_keyword_step:
  "fold (keyword_step subject body) ks (n, found) =
     (n + length (filter (\<lambda>k. py_in k subject \<or> py_in k body) ks),
      found @ filter (\<lambda>k. py_in k subject \<or> py_in k body) ks)"
  by (induction ks arbitrary: n found) (simp_all add: keyword_step_def)

lemma fold_extension_step:
  "fold (extension_step body) xs acc =
     (fst acc + of_nat (length (filter (\<lambda>x. py_in x body) xs)) * (3 / 10),
      snd acc @ map (\<lambda>x. ''Suspicious attachment type: '' @ x) (filter (\<lambda>x. py_in x body) xs))"
  by (induction xs arbitrary: acc) (simp_all add: extension_step_def algebra_simps split: prod.splits)

lemma fold_shortener_step:
  "fold (shortener_step body) xs acc =
     (fst acc + of_nat (length (filter (\<lambda>x. py_in x body) xs)) * (2 / 10),
      snd acc @ map (\<lambda>x. ''URL shortener detected: '' @ x) (filter (\<lambda>x. py_in x body) xs))"
  by (induction xs arbitrary: acc) (simp_all add: shortener_step_def algebra_simps split: prod.splits)

lemma caps_check_eq:
  "caps_check subject acc =
     Inr (fst acc + (if subject \<noteq> []
             \<and> (of_nat (length (filter isupper subject)) :: rat) / of_nat (length subject) > 1 / 2
          then 2 / 10 else 0),
          snd acc @ (if subject \<noteq> []
             \<and> (of_nat (length (filter isupper subject)) :: rat) / of_nat (length subject) > 1 / 2
          then [''Excessive capitalization''] else []))"
  by (cases acc) (simp add: caps_check_def py_truediv_def)

lemma cond_acc:
  "(if c then (fst acc + x, snd acc @ r) else acc) =
     (fst acc + (if c then x else 0), snd acc @ (if c then r else []))"
  for acc :: scoring
  by (cases acc) auto

lemma keyword_block:
  "(if hits \<noteq> [] then min (1 / 2) (of_nat (length hits) / 10) else (0::rat)) =
     min (1 / 2) (of_nat (length hits) / 10)"
  by simp

lemma calculate_spam_score_eq:
  "calculate_spam_score e =
     Inr (min 1 (suspicious_contribution e + other_contributions e), spam_reasons e)"
proof -
  have score: "no_reply_contribution e + suspicious_contribution e + keyword_contribution e
      + caps_contribution e + attachment_contribution e + shortener_contribution e
    = suspicious_contribution e + other_contributions e"
    by (simp add: other_contributions_def)
  have "calculate_spam_score e =
     Inr (min 1 (no_reply_contribution e + suspicious_contribution e + keyword_contribution e
      + caps_contribution e + attachment_contribution e + shortener_contribution e), spam_reasons e)"
    unfolding calculate_spam_score_def Let_def fold_keyword_step cond_acc caps_check_eq
      fold_extension_step fold_shortener_step fst_conv snd_conv sum.case
      no_reply_contribution_def suspicious_contribution_def keyword_contribution_def
      caps_contribution_def attachment_contribution_def shortener_contribution_def
      spam_reasons_def keyword_hits_def extension_hits_def shortener_hits_def caps_fires_def
    by (simp add: keyword_block split del: if_split cong: if_cong)
  then show ?thesis by (simp only: score)
qed

lemma lower_char_eq_iff:
  assumes "\<not> isupper d" "\<not> (97 \<le> (of_char d :: nat) \<and> (of_char d :: nat) \<le> 122)"
  shows "lower_char c = d \<longleftrightarrow> c = d"
proof (cases "isupper c")
  case True
  then have "(of_char (lower_char c) :: nat) = of_char c + 32" by (rule of_char_lower_char)
  then have "lower_char c \<noteq> d" using True assms(2) by (auto simp: isupper_def)
  moreover have "c \<noteq> d" using True assms(1) by auto
  ultimately show ?thesis by simp
next
  case False
  then show ?thesis by (simp add: lower_char_def)
qed

lemma lower_char_lt [simp]: "lower_char c = CHR ''<'' \<longleftrightarrow> c = CHR ''<''"
  by (rule lower_char_eq_iff) (simp_all add: isupper_def)

lemma lower_char_gt [simp]: "lower_char c = CHR ''>'' \<longleftrightarrow> c = CHR ''>''"
  by (rule lower_char_eq_iff) (simp_all add: isupper_def)

lemma lower_char_idem [simp]: "lower_char (lower_char c) = lower_char c"
  using not_isupper_lower_char [of c] by (simp add: lower_char_def)

lemma lower_idem [simp]: "lower (lower s) = lower s"
  by (simp add: lower_def)

lemma lower_Nil [simp]: "lower [] = []"
  by (simp add: lower_def)

lemma lower_eq_Nil [simp]: "lower s = [] \<longleftrightarrow> s = []"
  by (simp add: lower_def)

lemma lt_in_lower [simp]: "CHR ''<'' \<in> set (lower s) \<longleftrightarrow> CHR ''<'' \<in> set s"
proof (induction s)
  case Nil
  then show ?case by simp
next
  case (Cons c cs)
  have "lower (c # cs) = lower_char c # lower cs" by (simp add: lower_def)
  moreover have "CHR ''<'' = lower_char c \<longleftrightarrow> CHR ''<'' = c"
    by (metis lower_char_lt)
  ultimately show ?case using Cons.IH by simp
qed

lemma gt_in_lower [simp]: "CHR ''>'' \<in> set (lower s) \<longleftrightarrow> CHR ''>'' \<in> set s"
proof (induction s)
  case Nil
  then show ?case by simp
next
  case (Cons c cs)
  have "lower (c # cs) = lower_char c # lower cs" by (simp add: lower_def)
  moreover have "CHR ''>'' = lower_char c \<longleftrightarrow> CHR ''>'' = c"
    by (metis lower_char_gt)
  ultimately show ?case using Cons.IH by simp
qed

lemma takeWhile_lower:
  "takeWhile (\<lambda>x. x \<noteq> CHR ''>'') (lower s) = lower (takeWhile (\<lambda>x. x \<noteq> CHR ''>'') s)"
  by (simp add: lower_def takeWhile_map comp_def)

lemma dropWhile_lower:
  "dropWhile (\<lambda>x. x \<noteq> CHR ''>'') (lower s) = lower (dropWhile (\<lambda>x. x \<noteq> CHR ''>'') s)"
  by (simp add: lower_def dropWhile_map comp_def)

lemma search_angle_lower: "search_angle (lower s) = map_option lower (search_angle s)"
proof (induction s)
  case Nil
  then show ?case by simp
next
  case (Cons c cs)
  have "lower (c # cs) = lower_char c # lower cs" by (simp add: lower_def)
  then show ?case using Cons.IH
    by (simp add: takeWhile_lower dropWhile_lower)
qed

lemma sender_address_lower: "sender_address (lower s) = lower (sender_address s)"
  by (simp add: sender_address_def search_angle_lower split: option.splits)

lemma is_suspicious_sender_eq:
  "is_suspicious_sender a \<longleftrightarrow> \<not> whitelisted a \<and> matches_suspicious_pattern a"
  by (simp add: is_suspicious_sender_def whitelisted_def matches_suspicious_pattern_def
      sender_address_def Let_def)

lemma whitelisted_lower: "whitelisted (lower a) = whitelisted a"
  by (simp add: whitelisted_def sender_address_lower)

lemma matches_suspicious_pattern_lower:
  "matches_suspicious_pattern (lower a) = matches_suspicious_pattern a"
  by (simp add: matches_suspicious_pattern_def sender_address_lower)

lemma is_suspicious_sender_lower: "is_suspicious_sender (lower a) = is_suspicious_sender a"
  by (simp add: is_suspicious_sender_eq whitelisted_lower matches_suspicious_pattern_lower)

lemma is_no_reply_address_lower: "is_no_reply_address (lower a) = is_no_reply_address a"
  by (simp add: is_no_reply_address_def)

lemma suspicious_reason_mem:
  "''Suspicious sender pattern'' \<in> set (spam_reasons e)
     \<longleftrightarrow> is_suspicious_sender (dict_get e ''from'' [])"
  by (auto simp: spam_reasons_def is_suspicious_sender_lower)

lemma suspicious_contribution_eq:
  "suspicious_contribution e = (if is_suspicious_sender (dict_get e ''from'' []) then 1 / 2 else 0)"
  by (simp add: suspicious_contribution_def is_suspicious_sender_lower)

lemma caps_fires_never: "\<not> caps_fires e"
  by (simp add: caps_fires_def Let_def filter_isupper_lower)

lemma caps_contribution_zero: "caps_contribution e = 0"
  by (simp add: caps_contribution_def caps_fires_never)

lemma find_payment_domain:
  "domain \<in> set payment_domains \<Longrightarrow> py_in domain s \<Longrightarrow>
     \<exists>d. find (\<lambda>domain. py_in domain s) payment_domains = Some d"
  by (cases "find (\<lambda>domain. py_in domain s) payment_domains") (auto simp: find_None_iff)

lemma payment_scan_hit:
  assumes "keyword \<in> set ks" "py_in keyword subject"
    and "domain \<in> set payment_domains" "py_in domain (lower from_address)"
  shows "\<exists>reason. payment_scan ks subject from_address = (True, reason)"
  using assms(1)
proof (induction ks)
  case Nil
  then show ?case by simp
next
  case (Cons k ks)
  obtain d where d: "find (\<lambda>domain. py_in domain (lower from_address)) payment_domains = Some d"
    using find_payment_domain [OF assms(3,4)] by blast
  show ?case
  proof (cases "py_in k subject")
    case True
    then show ?thesis using d by simp
  next
    case False
    then have "keyword \<in> set ks" using Cons.prems assms(2) by auto
    then show ?thesis using Cons.IH False by simp
  qed
qed

lemma payment_scan_reason:
  "payment_scan ks subject from_address \<noteq> (True, ''No-reply address'')"
  by (induction ks) (auto split: option.splits)

lemma prefix_before_lt:
  assumes "CHR ''<'' \<notin> set p"
  shows "prefix p (a @ CHR ''<'' # b) \<longleftrightarrow> prefix p a"
proof
  assume "prefix p (a @ CHR ''<'' # b)"
  then consider "prefix p a" | us where "p = a @ us" "prefix us (CHR ''<'' # b)"
    by (auto simp: prefix_append)
  then show "prefix p a"
  proof cases
    case 1
    then show ?thesis .
  next
    case 2
    show ?thesis
    proof (cases us)
      case Nil
      then show ?thesis using 2 by simp
    next
      case (Cons u us')
      then have "u = CHR ''<''" using 2(2) by simp
      then have "CHR ''<'' \<in> set p" using 2(1) Cons by simp
      then show ?thesis using assms by simp
    qed
  qed
next
  assume "prefix p a"
  then show "prefix p (a @ CHR ''<'' # b)" by (rule prefix_prefix)
qed

lemma lower_Cons: "lower (c # cs) = lower_char c # lower cs"
  by (simp add: lower_def)

lemma lower_char_lt_self: "lower_char CHR ''<'' = CHR ''<''"
  by simp

lemma is_no_reply_address_prefixes:
  "is_no_reply_address s \<longleftrightarrow>
     list_ex (\<lambda>p. prefix p (lower s))
       [''noreply@'', ''no-reply@'', ''donotreply@'', ''do-not-reply@'', ''notifications@'',
        ''alerts@'', ''automated@'', ''system@'', ''mailer-daemon@'', ''postmaster@'']"
  by (simp add: is_no_reply_address_def NO_REPLY_PATTERNS_def re_match_DotStar_end Let_def
      del: prefix_code)

lemma is_no_reply_address_before_lt:
  "is_no_reply_address (name @ CHR ''<'' # rest) = is_no_reply_address name"
  unfolding is_no_reply_address_prefixes lower_append lower_Cons lower_char_lt_self
  by (simp add: prefix_before_lt del: prefix_code)

lemma takeWhile_until_gt:
  "CHR ''>'' \<notin> set addr \<Longrightarrow>
     takeWhile (\<lambda>x. x \<noteq> CHR ''>'') (addr @ CHR ''>'' # rest) = addr"
  by (induction addr) auto

lemma dropWhile_until_gt:
  "CHR ''>'' \<notin> set addr \<Longrightarrow>
     dropWhile (\<lambda>x. x \<noteq> CHR ''>'') (addr @ CHR ''>'' # rest) = CHR ''>'' # rest"
  by (induction addr) auto

lemma search_angle_display_name:
  assumes "CHR ''<'' \<notin> set name" "addr \<noteq> []" "CHR ''>'' \<notin> set addr"
  shows "search_angle (name @ CHR ''<'' # addr @ CHR ''>'' # rest) = Some addr"
  using assms(1)
proof (induction name)
  case Nil
  show ?case
    using assms(2,3) by (simp add: takeWhile_until_gt dropWhile_until_gt)
next
  case (Cons c name)
  then have "c \<noteq> CHR ''<''" by auto
  then show ?case using Cons by simp
qed

section \<open>The loops of the tracker's cleanup\<close>

lemma fold_collect_old:
  "fold (\<lambda>entry acc. case entry of (email_id, data) \<Rightarrow>
           if processed_at data < cutoff then acc @ [email_id] else acc) es acc0
     = acc0 @ map fst (filter (\<lambda>entry. processed_at (snd entry) < cutoff) es)"
  by (induction es arbitrary: acc0) (auto split: prod.splits)

lemma fold_delete_filter:
  "fold AList.delete ks es = filter (\<lambda>entry. fst entry \<notin> set ks) es"
proof (induction ks arbitrary: es)
  case Nil
  then show ?case by simp
next
  case (Cons k ks)
  have "AList.delete k es = filter (\<lambda>entry. fst entry \<noteq> k) es"
    by (simp add: AList.delete_eq case_prod_beta' eq_commute)
  then show ?case
    using Cons.IH [of "AList.delete k es"] by (simp add: conj_commute)
qed

lemma remove_old_keys:
  assumes "distinct (map fst es)"
  shows "filter (\<lambda>entry. fst entry \<notin> set (map fst (filter (\<lambda>entry. old (snd entry)) es))) es
           = filter (\<lambda>entry. \<not> old (snd entry)) es"
proof (rule filter_cong [OF refl])
  fix entry
  assume mem: "entry \<in> set es"
  obtain k r where entry: "entry = (k, r)" by (cases entry)
  have "k \<in> fst ` {x \<in> set es. old (snd x)} \<longleftrightarrow> old r"
  proof
    assume "k \<in> fst ` {x \<in> set es. old (snd x)}"
    then obtain r' where r': "(k, r') \<in> set es" "old r'" by auto
    have "r' = r"
      using eq_key_imp_eq_value [OF assms r'(1)] mem entry by simp
    then show "old r" using r'(2) by simp
  next
    assume "old r"
    then show "k \<in> fst ` {x \<in> set es. old (snd x)}"
      using mem entry by force
  qed
  then show "(fst entry \<notin> set (map fst (filter (\<lambda>entry. old (snd entry)) es)))
      = (\<not> old (snd entry))"
    by (simp add: entry)
qed

lemma get_emails_cleanup:
  assumes "distinct (map fst (get_emails self))"
  shows "get_emails (cleanup_old_entries self now)
           = filter (\<lambda>entry. \<not> processed_at (snd entry) < cutoff_date self now)
               (get_emails self)"
proof (cases "emails (processed_emails self)")
  case None
  then show ?thesis
    by (simp add: cleanup_old_entries_def get_emails_def Let_def)
next
  case (Some es)
  then have es: "get_emails self = es" by (simp add: get_emails_def)
  have "fold AList.delete
          (map fst (filter (\<lambda>entry. processed_at (snd entry) < cutoff_date self now) es)) es
        = filter (\<lambda>entry. \<not> processed_at (snd entry) < cutoff_date self now) es"
    using remove_old_keys [of es "\<lambda>r. processed_at r < cutoff_date self now"] assms es
    by (simp add: fold_delete_filter)
  then show ?thesis
    using Some
    by (auto simp: cleanup_old_entries_def get_emails_def Let_def fold_collect_old
        cutoff_date_def)
qed

lemma max_history_days_cleanup:
  "max_history_days (cleanup_old_entries self now) = max_history_days self"
  by (simp add: cleanup_old_entries_def Let_def split: option.splits)

section \<open>The spam score is a number between 0 and 1\<close>

lemma no_reply_contribution_nonneg: "0 \<le> no_reply_contribution e"
  by (simp add: no_reply_contribution_def)

lemma suspicious_contribution_nonneg: "0 \<le> suspicious_contribution e"
  by (simp add: suspicious_contribution_def)

lemma keyword_contribution_nonneg: "0 \<le> keyword_contribution e"
  by (simp add: keyword_contribution_def)

lemma caps_contribution_nonneg: "0 \<le> caps_contribution e"
  by (simp add: caps_contribution_def)

lemma attachment_contribution_nonneg: "0 \<le> attachment_contribution e"
  by (simp add: attachment_contribution_def)

lemma shortener_contribution_nonneg: "0 \<le> shortener_contribution e"
  by (simp add: shortener_contribution_def)

lemma other_contributions_nonneg: "0 \<le> other_contributions e"
  unfolding other_contributions_def
  by (intro add_nonneg_nonneg no_reply_contribution_nonneg keyword_contribution_nonneg
      caps_contribution_nonneg attachment_contribution_nonneg shortener_contribution_nonneg)

text \<open>
  C1. For every email, \<open>calculate_spam_score\<close> returns a score \<open>s\<close> with \<open>0 \<le> s \<le> 1\<close>: the
  score is the sum of the six contributions, capped by \<open>min 1\<close>, and each contribution is
  non-negative.
\<close>

theorem spam_score_between_0_and_1:
  "\<exists>s reasons. calculate_spam_score e = Inr (s, reasons) \<and> 0 \<le> s \<and> s \<le> 1
     \<and> s = min 1 (suspicious_contribution e + (no_reply_contribution e + keyword_contribution e
                    + caps_contribution e + attachment_contribution e
                    + shortener_contribution e))
     \<and> 0 \<le> no_reply_contribution e \<and> 0 \<le> suspicious_contribution e
     \<and> 0 \<le> keyword_contribution e \<and> 0 \<le> caps_contribution e
     \<and> 0 \<le> attachment_contribution e \<and> 0 \<le> shortener_contribution e"
proof -
  let ?s = "min 1 (suspicious_contribution e + other_contributions e)"
  have "calculate_spam_score e = Inr (?s, spam_reasons e)"
    by (rule calculate_spam_score_eq)
  moreover have "0 \<le> ?s"
    using suspicious_contribution_nonneg [of e] other_contributions_nonneg [of e] by simp
  moreover have "?s \<le> 1" by simp
  moreover have "?s = min 1 (suspicious_contribution e + (no_reply_contribution e
      + keyword_contribution e + caps_contribution e + attachment_contribution e
      + shortener_contribution e))"
    by (simp only: other_contributions_def)
  ultimately show ?thesis
    using no_reply_contribution_nonneg suspicious_contribution_nonneg
      keyword_contribution_nonneg caps_contribution_nonneg attachment_contribution_nonneg
      shortener_contribution_nonneg
    by blast
qed

text \<open>
  An email whose contributions add up to more than one (no-reply sender \<open>0.3\<close>, suspicious
  sender \<open>0.5\<close>, an \<open>.exe\<close> \<open>0.3\<close>, a URL shortener \<open>0.2\<close>) scores exactly \<open>1\<close>.
\<close>

theorem spam_score_between_0_and_1_witness:
  "calculate_spam_score
     [''subject'' \<mapsto> ''Hi'', ''body'' \<mapsto> ''open prize.exe via bit.ly'',
      ''from'' \<mapsto> ''noreply@paypal.security-alert.com''] =
   Inr (1, [''No-reply address'', ''Suspicious sender pattern'',
            ''Suspicious attachment type: .exe'', ''URL shortener detected: bit.ly''])
   \<and> (\<exists>s reasons. calculate_spam_score
          [''subject'' \<mapsto> ''Hi'', ''body'' \<mapsto> ''open prize.exe via bit.ly'',
           ''from'' \<mapsto> ''noreply@paypal.security-alert.com''] = Inr (s, reasons)
        \<and> 0 \<le> s \<and> s \<le> 1)"
proof -
  have "calculate_spam_score
     [''subject'' \<mapsto> ''Hi'', ''body'' \<mapsto> ''open prize.exe via bit.ly'',
      ''from'' \<mapsto> ''noreply@paypal.security-alert.com''] =
   Inr (1, [''No-reply address'', ''Suspicious sender pattern'',
            ''Suspicious attachment type: .exe'', ''URL shortener detected: bit.ly''])"
    by code_simp
  moreover have "\<exists>s reasons. calculate_spam_score
          [''subject'' \<mapsto> ''Hi'', ''body'' \<mapsto> ''open prize.exe via bit.ly'',
           ''from'' \<mapsto> ''noreply@paypal.security-alert.com''] = Inr (s, reasons)
        \<and> 0 \<le> s \<and> s \<le> 1"
    using spam_score_between_0_and_1
      [of "[''subject'' \<mapsto> ''Hi'', ''body'' \<mapsto> ''open prize.exe via bit.ly'',
            ''from'' \<mapsto> ''noreply@paypal.security-alert.com'']"]
    by blast
  ultimately show ?thesis by blast
qed

section \<open>Payment receipts are always skipped\<close>

lemma lower_payment_keyword: "keyword \<in> set payment_keywords \<Longrightarrow> lower keyword = keyword"
  by (auto simp: payment_keywords_def lower_def lower_char_def isupper_def)

lemma lower_payment_domain: "domain \<in> set payment_domains \<Longrightarrow> lower domain = domain"
  by (auto simp: payment_domains_def lower_def lower_char_def isupper_def)

text \<open>
  C2. If the subject contains a payment keyword and the sender contains a payment-processor
  token (as written, or after lower-casing, which is how the function compares them), then
  \<open>should_skip_email\<close> returns \<open>skip = True\<close>, whatever the spam score and whatever the
  threshold the caller passes.
\<close>

theorem payment_receipt_always_skipped:
  assumes "keyword \<in> set payment_keywords"
    and "py_in keyword (dict_get e ''subject'' [])
         \<or> py_in keyword (lower (dict_get e ''subject'' []))"
    and "domain \<in> set payment_domains"
    and "py_in domain (dict_get e ''from'' [])
         \<or> py_in domain (lower (dict_get e ''from'' []))"
  shows "\<exists>reason. should_skip_email e threshold = Inr (True, reason)"
proof -
  have kw: "py_in keyword (lower (dict_get e ''subject'' []))"
    using assms(2) py_in_lower [of keyword "dict_get e ''subject'' []"]
      lower_payment_keyword [OF assms(1)] by auto
  have dm: "py_in domain (lower (dict_get e ''from'' []))"
    using assms(4) py_in_lower [of domain "dict_get e ''from'' []"]
      lower_payment_domain [OF assms(3)] by auto
  obtain reason where scan:
    "payment_scan payment_keywords (lower (dict_get e ''subject'' [])) (dict_get e ''from'' [])
       = (True, reason)"
    using payment_scan_hit [OF assms(1) kw assms(3) dm] by blast
  show ?thesis
  proof (cases "is_no_reply_address (dict_get e ''from'' [])")
    case True
    then show ?thesis by (simp add: should_skip_email_def)
  next
    case no_reply: False
    show ?thesis
    proof (cases "threshold \<le> min 1 (suspicious_contribution e + other_contributions e)")
      case True
      then show ?thesis
        using no_reply by (simp add: should_skip_email_def calculate_spam_score_eq)
    next
      case False
      then show ?thesis
        using no_reply scan by (simp add: should_skip_email_def calculate_spam_score_eq)
    qed
  qed
qed

text \<open>
  A receipt from Stripe with an upper-case initial, under a threshold no score can reach.
\<close>

theorem payment_receipt_always_skipped_witness:
  "should_skip_email [''subject'' \<mapsto> ''Your Receipt'', ''from'' \<mapsto> ''service@Stripe.com''] 2
     = Inr (True, ''Payment processor email (stripe)'')
   \<and> (\<exists>reason. should_skip_email
          [''subject'' \<mapsto> ''Your Receipt'', ''from'' \<mapsto> ''service@Stripe.com''] 2
        = Inr (True, reason))"
proof -
  let ?e = "[''subject'' \<mapsto> ''Your Receipt'', ''from'' \<mapsto> ''service@Stripe.com'']"
  have 1: "''receipt'' \<in> set payment_keywords" by (simp add: payment_keywords_def)
  have 2: "py_in ''receipt'' (dict_get ?e ''subject'' [])
           \<or> py_in ''receipt'' (lower (dict_get ?e ''subject'' []))" by code_simp
  have 3: "''stripe'' \<in> set payment_domains" by (simp add: payment_domains_def)
  have 4: "py_in ''stripe'' (dict_get ?e ''from'' [])
           \<or> py_in ''stripe'' (lower (dict_get ?e ''from'' []))" by code_simp
  have "should_skip_email ?e 2 = Inr (True, ''Payment processor email (stripe)'')"
    by code_simp
  then show ?thesis
    using payment_receipt_always_skipped [OF 1 2 3 4, of 2] by simp
qed

section \<open>Whitelisted senders\<close>

text \<open>
  C3. A sender whose address ends with \<open>@\<close> and a whitelisted domain is never suspicious,
  whether or not a brand pattern matches it: the whitelist is consulted first. Its email
  gets no suspicious-sender contribution and no such reason. A sender that is not
  whitelisted and matches a pattern is suspicious, and its email gets the \<open>0.5\<close>.
\<close>

theorem whitelist_checked_before_patterns:
  "(whitelisted a \<longrightarrow> \<not> is_suspicious_sender a)
   \<and> (whitelisted (dict_get e ''from'' []) \<longrightarrow>
        calculate_spam_score e = Inr (min 1 (other_contributions e), spam_reasons e)
        \<and> ''Suspicious sender pattern'' \<notin> set (spam_reasons e))
   \<and> (\<not> whitelisted (dict_get e ''from'' [])
        \<and> matches_suspicious_pattern (dict_get e ''from'' []) \<longrightarrow>
        is_suspicious_sender (dict_get e ''from'' [])
        \<and> calculate_spam_score e = Inr (min 1 (1 / 2 + other_contributions e), spam_reasons e)
        \<and> ''Suspicious sender pattern'' \<in> set (spam_reasons e))"
proof (intro conjI impI)
  show "\<not> is_suspicious_sender a" if "whitelisted a"
    using that by (simp add: is_suspicious_sender_eq)
next
  assume w: "whitelisted (dict_get e ''from'' [])"
  then have n: "\<not> is_suspicious_sender (dict_get e ''from'' [])"
    by (simp add: is_suspicious_sender_eq)
  then show "calculate_spam_score e = Inr (min 1 (other_contributions e), spam_reasons e)"
    by (simp add: calculate_spam_score_eq suspicious_contribution_eq)
  show "''Suspicious sender pattern'' \<notin> set (spam_reasons e)"
    using n by (simp add: suspicious_reason_mem)
next
  assume "\<not> whitelisted (dict_get e ''from'' [])
      \<and> matches_suspicious_pattern (dict_get e ''from'' [])"
  then show s: "is_suspicious_sender (dict_get e ''from'' [])"
    by (simp add: is_suspicious_sender_eq)
  then show "calculate_spam_score e
      = Inr (min 1 (1 / 2 + other_contributions e), spam_reasons e)"
    by (simp add: calculate_spam_score_eq suspicious_contribution_eq)
  show "''Suspicious sender pattern'' \<in> set (spam_reasons e)"
    using s by (simp add: suspicious_reason_mem)
qed

text \<open>
  Both addresses match the PayPal pattern; only the one outside \<open>paypal.com\<close> is scored.
\<close>

theorem whitelist_checked_before_patterns_witness:
  "matches_suspicious_pattern ''user@paypal.com''
   \<and> \<not> is_suspicious_sender ''user@paypal.com''
   \<and> calculate_spam_score [''from'' \<mapsto> ''user@paypal.com''] = Inr (0, [])
   \<and> is_suspicious_sender ''user@paypal.security-alert.com''
   \<and> calculate_spam_score [''from'' \<mapsto> ''user@paypal.security-alert.com'']
       = Inr (1 / 2, [''Suspicious sender pattern''])"
proof -
  let ?good = "[''from'' \<mapsto> ''user@paypal.com'']"
  let ?bad = "[''from'' \<mapsto> ''user@paypal.security-alert.com'']"
  have m1: "matches_suspicious_pattern ''user@paypal.com''" by code_simp
  have w1: "whitelisted ''user@paypal.com''" by code_simp
  have g: "dict_get ?good ''from'' [] = ''user@paypal.com''" by (simp add: dict_get_def)
  have b: "dict_get ?bad ''from'' [] = ''user@paypal.security-alert.com''"
    by (simp add: dict_get_def)
  have w2: "\<not> whitelisted ''user@paypal.security-alert.com''" by code_simp
  have m2: "matches_suspicious_pattern ''user@paypal.security-alert.com''" by code_simp
  have og: "other_contributions ?good = 0" by code_simp
  have ob: "other_contributions ?bad = 0" by code_simp
  have rg: "spam_reasons ?good = []" by code_simp
  have rb: "spam_reasons ?bad = [''Suspicious sender pattern'']" by code_simp
  show ?thesis
    using whitelist_checked_before_patterns [of "''user@paypal.com''" ?good]
      whitelist_checked_before_patterns [of "''user@paypal.com''" ?bad]
      m1 w1 g b w2 m2 og ob rg rb
    by simp
qed

section \<open>Categories are tried in a fixed order\<close>

lemma fold_keyword_match_step:
  assumes "map_of cm c = Some ks0"
  shows "map_of (fst (fold (keyword_match_step text c) kws (cm, mk)))
           = (map_of cm)(c \<mapsto> ks0 @ filter (\<lambda>k. py_in k text) kws)
         \<and> snd (fold (keyword_match_step text c) kws (cm, mk))
           = mk @ filter (\<lambda>k. py_in k text) kws"
  using assms
proof (induction kws arbitrary: cm mk ks0)
  case Nil
  then show ?case by (simp add: map_upd_triv)
next
  case (Cons k kws)
  show ?case
  proof (cases "py_in k text")
    case True
    have step: "keyword_match_step text c k (cm, mk)
        = (AList.update c (ks0 @ [k]) cm, mk @ [k])"
      using True Cons.prems by (simp add: keyword_match_step_def)
    have "map_of (AList.update c (ks0 @ [k]) cm) c = Some (ks0 @ [k])"
      by (simp add: update_conv')
    from Cons.IH [OF this, of "mk @ [k]"] show ?thesis
      using True by (simp add: step update_conv' fun_eq_iff)
  next
    case False
    then have step: "keyword_match_step text c k (cm, mk) = (cm, mk)"
      by (simp add: keyword_match_step_def)
    from Cons.IH [OF Cons.prems, of mk] show ?thesis
      using False by (simp add: step)
  qed
qed

lemma category_step_effect:
  "map_of (fst (category_step text (c, kws) acc))
     = (map_of (fst acc))(c \<mapsto> filter (\<lambda>k. py_in k text) kws)"
  "snd (category_step text (c, kws) acc) = snd acc @ filter (\<lambda>k. py_in k text) kws"
proof -
  obtain cm mk where acc: "acc = (cm, mk)" by (cases acc)
  have "map_of (AList.update c [] cm) c = Some []" by (simp add: update_conv')
  from fold_keyword_match_step [OF this, of "text" kws mk]
  show "map_of (fst (category_step text (c, kws) acc))
     = (map_of (fst acc))(c \<mapsto> filter (\<lambda>k. py_in k text) kws)"
    and "snd (category_step text (c, kws) acc) = snd acc @ filter (\<lambda>k. py_in k text) kws"
    by (simp_all add: acc category_step_def update_conv')
qed

lemma filter_nonempty_iff: "filter P xs \<noteq> [] \<longleftrightarrow> list_ex P xs"
  by (simp add: filter_empty_conv list_ex_iff)

lemma category_keywords_simps:
  "category_keywords ''urgent_request'' = urgent_request_keywords"
  "category_keywords ''complaint'' = complaint_keywords"
  "category_keywords ''billing_question'' = billing_question_keywords"
  "category_keywords ''product_support'' = product_support_keywords"
  "category_keywords ''feature_request'' = feature_request_keywords"
  "category_keywords ''spam'' = spam_category_keywords"
  "category_keywords ''general_feedback'' = general_feedback_keywords"
  by (simp_all add: category_keywords_def categories_def)

lemma category_matches_after_loop:
  "map_of (fst (fold (category_step text) categories ([], []))) =
     [''complaint'' \<mapsto> filter (\<lambda>k. py_in k text) complaint_keywords,
      ''product_support'' \<mapsto> filter (\<lambda>k. py_in k text) product_support_keywords,
      ''feature_request'' \<mapsto> filter (\<lambda>k. py_in k text) feature_request_keywords,
      ''billing_question'' \<mapsto> filter (\<lambda>k. py_in k text) billing_question_keywords,
      ''general_feedback'' \<mapsto> filter (\<lambda>k. py_in k text) general_feedback_keywords,
      ''urgent_request'' \<mapsto> filter (\<lambda>k. py_in k text) urgent_request_keywords,
      ''spam'' \<mapsto> filter (\<lambda>k. py_in k text) spam_category_keywords]"
  by (simp add: categories_def category_step_effect)

lemma matched_keywords_after_loop:
  "snd (fold (category_step text) categories ([], [])) = all_matched_keywords text"
  by (simp add: categories_def category_step_effect all_matched_keywords_def)

lemma categorize_email_eq:
  "categorize_email e =
     (case first_matching_category (email_text e) of
        None \<Rightarrow> (''customer_inquiry'', [])
      | Some c \<Rightarrow> (c, all_matched_keywords (email_text e)))"
proof -
  let ?t = "email_text e"
  have found: "find (\<lambda>category.
        case map_of (fst (fold (category_step ?t) categories ([], []))) category of
          Some ks \<Rightarrow> ks \<noteq> [] | None \<Rightarrow> False) priority_order
      = first_matching_category ?t"
    unfolding category_matches_after_loop first_matching_category_def priority_order_def
      spec_priority_order_def has_match_def
    by (simp add: filter_nonempty_iff category_keywords_simps split del: if_split
        cong: if_cong)
  show ?thesis
    unfolding categorize_email_def Let_def
    by (simp only: email_text_def [symmetric] found matched_keywords_after_loop)
qed

text \<open>
  C4. The category is the first one of the order urgent, complaint, billing, support,
  feature, spam, feedback whose table has a keyword occurring in the lower-cased subject,
  a space and the lower-cased body; without any match the result is \<open>customer_inquiry\<close>
  with an empty keyword list. A text with an urgent keyword and a complaint keyword is an
  \<open>urgent_request\<close>.
\<close>

theorem category_is_first_match_in_order:
  "(case find (has_match (email_text e)) spec_priority_order of
      Some c \<Rightarrow> fst (categorize_email e) = c
    | None \<Rightarrow> categorize_email e = (''customer_inquiry'', []))
   \<and> (has_match (email_text e) ''urgent_request'' \<and> has_match (email_text e) ''complaint''
        \<longrightarrow> fst (categorize_email e) = ''urgent_request'')"
proof
  show "case find (has_match (email_text e)) spec_priority_order of
      Some c \<Rightarrow> fst (categorize_email e) = c
    | None \<Rightarrow> categorize_email e = (''customer_inquiry'', [])"
    by (simp add: categorize_email_eq first_matching_category_def split: option.splits)
  show "has_match (email_text e) ''urgent_request'' \<and> has_match (email_text e) ''complaint''
        \<longrightarrow> fst (categorize_email e) = ''urgent_request''"
    by (simp add: categorize_email_eq first_matching_category_def spec_priority_order_def)
qed

text \<open>
  The subject has the urgent keyword \<open>urgent\<close>, the body the complaint keyword
  \<open>complaint\<close>; the second email matches nothing.
\<close>

theorem category_is_first_match_in_order_witness:
  "has_match (email_text [''subject'' \<mapsto> ''Urgent'', ''body'' \<mapsto> ''I have a complaint''])
     ''urgent_request''
   \<and> has_match (email_text [''subject'' \<mapsto> ''Urgent'', ''body'' \<mapsto> ''I have a complaint''])
     ''complaint''
   \<and> fst (categorize_email [''subject'' \<mapsto> ''Urgent'', ''body'' \<mapsto> ''I have a complaint''])
     = ''urgent_request''
   \<and> categorize_email [''subject'' \<mapsto> ''Hello'', ''body'' \<mapsto> ''See you''] =
     (''customer_inquiry'', [])"
proof -
  let ?e = "[''subject'' \<mapsto> ''Urgent'', ''body'' \<mapsto> ''I have a complaint'']"
  let ?n = "[''subject'' \<mapsto> ''Hello'', ''body'' \<mapsto> ''See you'']"
  have u: "has_match (email_text ?e) ''urgent_request''" by code_simp
  have c: "has_match (email_text ?e) ''complaint''" by code_simp
  have n: "find (has_match (email_text ?n)) spec_priority_order = None" by code_simp
  show ?thesis
    using category_is_first_match_in_order [of ?e] category_is_first_match_in_order [of ?n]
      u c n
    by simp
qed

section \<open>The sender rate limit\<close>

lemma fold_count_sender:
  "fold (\<lambda>email_data count.
           if processed_at email_data \<ge> cutoff
           then (if lower (rec_from email_data) = s then count + 1 else count)
           else count) rs n
     = n + int (length (filter (\<lambda>r. cutoff \<le> processed_at r \<and> lower (rec_from r) = s) rs))"
  by (induction rs arbitrary: n) simp_all

lemma count_sender_emails_eq:
  "count_sender_emails self sender hours now
     = int (length (sender_records_in_window self sender hours now))"
  by (simp add: count_sender_emails_def sender_records_in_window_def Let_def
      fold_count_sender filter_map comp_def)

text \<open>
  C5. An email that is not in the ledger and that the filter does not skip is refused when
  the ledger already holds at least \<open>max_emails_per_sender\<close> entries of its sender (compared
  in lower case) inside the trailing window; the reason names the limit and the window.
\<close>

theorem rate_limited_sender_not_processed:
  assumes "case e ''id'' of None \<Rightarrow> True | Some i \<Rightarrow> \<not> is_processed (email_tracker self) i"
    and "should_skip_email e (spam_threshold (config self)) = Inr (False, skip_reason)"
    and "max_emails_per_sender (config self)
           \<le> int (length (sender_records_in_window (email_tracker self)
                             (dict_get e ''from'' []) (rate_limit_window (config self)) now))"
  shows "should_process_email self e now =
           Inr (False, ''Rate limit exceeded for sender (max ''
                       @ str_int (max_emails_per_sender (config self))
                       @ '' per '' @ str_int (rate_limit_window (config self)) @ ''h)'')"
proof -
  have "\<not> (case e ''id'' of None \<Rightarrow> False | Some i \<Rightarrow> is_processed (email_tracker self) i)"
    using assms(1) by (simp split: option.splits)
  then show ?thesis
    using assms(2,3)
    by (simp add: should_process_email_def Let_def count_sender_emails_eq)
qed

text \<open>
  Limit three per 24 hours, three entries of \<open>a@b.com\<close> (one of them written in capitals)
  inside the window, and a fourth email of that sender.
\<close>

theorem rate_limited_sender_not_processed_witness:
  "should_process_email
     \<lparr>email_tracker = \<lparr>max_history_days = 7, processed_emails = \<lparr>emails = Some
        [(''1'', \<lparr>processed_at = 4000000000, rec_subject = ''One'', rec_from = ''a@b.com'',
                 rec_category = ''customer_inquiry'', response_sent = True\<rparr>),
         (''2'', \<lparr>processed_at = 5000000000, rec_subject = ''Two'', rec_from = ''A@B.com'',
                 rec_category = ''customer_inquiry'', response_sent = True\<rparr>),
         (''3'', \<lparr>processed_at = 6000000000, rec_subject = ''Three'', rec_from = ''a@b.com'',
                 rec_category = ''customer_inquiry'', response_sent = True\<rparr>)],
        last_cleanup = Some 0\<rparr>\<rparr>,
      config = \<lparr>max_emails_per_sender = 3, spam_threshold = 1 / 2, rate_limit_window = 24\<rparr>\<rparr>
     [''id'' \<mapsto> ''4'', ''from'' \<mapsto> ''a@b.com'', ''subject'' \<mapsto> ''Hello'', ''body'' \<mapsto> ''Hi'']
     90000000000
   = Inr (False, ''Rate limit exceeded for sender (max 3 per 24h)'')"
proof -
  let ?s = "\<lparr>email_tracker = \<lparr>max_history_days = 7, processed_emails = \<lparr>emails = Some
        [(''1'', \<lparr>processed_at = 4000000000, rec_subject = ''One'', rec_from = ''a@b.com'',
                 rec_category = ''customer_inquiry'', response_sent = True\<rparr>),
         (''2'', \<lparr>processed_at = 5000000000, rec_subject = ''Two'', rec_from = ''A@B.com'',
                 rec_category = ''customer_inquiry'', response_sent = True\<rparr>),
         (''3'', \<lparr>processed_at = 6000000000, rec_subject = ''Three'', rec_from = ''a@b.com'',
                 rec_category = ''customer_inquiry'', response_sent = True\<rparr>)],
        last_cleanup = Some 0\<rparr>\<rparr>,
      config = \<lparr>max_emails_per_sender = 3, spam_threshold = 1 / 2, rate_limit_window = 24\<rparr>\<rparr>"
  let ?e = "[''id'' \<mapsto> ''4'', ''from'' \<mapsto> ''a@b.com'', ''subject'' \<mapsto> ''Hello'',
             ''body'' \<mapsto> ''Hi'']"
  have 1: "case ?e ''id'' of None \<Rightarrow> True | Some i \<Rightarrow> \<not> is_processed (email_tracker ?s) i"
    by code_simp
  have 2: "should_skip_email ?e (spam_threshold (config ?s)) = Inr (False, [])"
    by code_simp
  have 3: "max_emails_per_sender (config ?s)
           \<le> int (length (sender_records_in_window (email_tracker ?s)
                             (dict_get ?e ''from'' []) (rate_limit_window (config ?s))
                             90000000000))"
    by code_simp
  have 4: "str_int 3 = ''3''" by code_simp
  have 5: "str_int 24 = ''24''" by code_simp
  show ?thesis
    using rate_limited_sender_not_processed [OF 1 2 3] by (simp add: 4 5)
qed

section \<open>Marking is an upsert\<close>

lemma get_emails_mark:
  assumes "distinct (map fst (get_emails self))"
  shows "get_emails (mark_as_processed self email_id email_data sent now later) =
     (if cleanup_due self later
      then filter (\<lambda>entry. \<not> processed_at (snd entry) < cutoff_date self later)
             (AList.update email_id (ledger_entry email_data sent now) (get_emails self))
      else AList.update email_id (ledger_entry email_data sent now) (get_emails self))"
proof -
  let ?es = "AList.update email_id (ledger_entry email_data sent now) (get_emails self)"
  let ?marked = "self\<lparr>processed_emails := (processed_emails self)\<lparr>emails := Some ?es\<rparr>\<rparr>"
  have g: "get_emails ?marked = ?es" by (simp add: get_emails_def)
  have d: "distinct (map fst (get_emails ?marked))"
    unfolding g using assms by (rule distinct_update)
  have c: "cutoff_date ?marked later = cutoff_date self later" by (simp add: cutoff_date_def)
  have "get_emails (cleanup_old_entries ?marked later)
      = filter (\<lambda>entry. \<not> processed_at (snd entry) < cutoff_date self later) ?es"
    using get_emails_cleanup [OF d, of later] by (simp only: g c)
  then show ?thesis
    using g by (simp add: mark_as_processed_def cleanup_due_def Let_def ledger_entry_def)
qed

lemma distinct_mark:
  assumes "distinct (map fst (get_emails self))"
  shows "distinct (map fst (get_emails (mark_as_processed self email_id email_data sent now later)))"
  unfolding get_emails_mark [OF assms]
  using assms by (simp add: distinct_update distinct_map_filter)

lemma max_history_days_mark:
  "max_history_days (mark_as_processed self email_id email_data sent now later)
     = max_history_days self"
  by (simp add: mark_as_processed_def Let_def max_history_days_cleanup)

lemma cutoff_date_mark:
  "cutoff_date (mark_as_processed self email_id email_data sent now later) t
     = cutoff_date self t"
  by (simp add: cutoff_date_def max_history_days_mark)

lemma one_record_for_key:
  "distinct (map fst es) \<Longrightarrow> map_of es k = Some v \<Longrightarrow>
     filter (\<lambda>entry. fst entry = k) es = [(k, v)]"
proof (induction es)
  case Nil
  then show ?case by simp
next
  case (Cons a es)
  show ?case
  proof (cases "fst a = k")
    case True
    then have "k \<notin> fst ` set es" using Cons.prems(1) by auto
    then have "filter (\<lambda>entry. fst entry = k) es = []"
      by (auto simp: filter_empty_conv)
    moreover have "a = (k, v)" using True Cons.prems(2) by (cases a) simp
    ultimately show ?thesis by simp
  next
    case False
    then show ?thesis using Cons by (cases a) auto
  qed
qed

lemma at_most_one_record_for_key:
  "distinct (map fst es) \<Longrightarrow> length (filter (\<lambda>entry. fst entry = k) es) \<le> 1"
proof (induction es)
  case Nil
  then show ?case by simp
next
  case (Cons a es)
  show ?case
  proof (cases "fst a = k")
    case True
    then have "k \<notin> fst ` set es" using Cons.prems by auto
    then have "filter (\<lambda>entry. fst entry = k) es = []"
      by (auto simp: filter_empty_conv)
    then show ?thesis using True by simp
  next
    case False
    then show ?thesis using Cons by simp
  qed
qed

lemma records_for_key_mark:
  assumes "distinct (map fst (get_emails self))"
  shows "filter (\<lambda>entry. fst entry = email_id)
           (get_emails (mark_as_processed self email_id email_data sent now later))
         = (if cleanup_due self later \<and> now < cutoff_date self later then []
            else [(email_id, ledger_entry email_data sent now)])"
proof -
  let ?entry = "ledger_entry email_data sent now"
  let ?es = "AList.update email_id ?entry (get_emails self)"
  have d: "distinct (map fst ?es)" using assms by (rule distinct_update)
  have m: "map_of ?es email_id = Some ?entry" by (simp add: update_conv')
  have one: "filter (\<lambda>entry. fst entry = email_id) ?es = [(email_id, ?entry)]"
    by (rule one_record_for_key [OF d m])
  have at: "processed_at ?entry = now" by (simp add: ledger_entry_def)
  show ?thesis
  proof (cases "cleanup_due self later")
    case True
    have "filter (\<lambda>entry. fst entry = email_id)
            (get_emails (mark_as_processed self email_id email_data sent now later))
        = filter (\<lambda>entry. \<not> processed_at (snd entry) < cutoff_date self later)
            (filter (\<lambda>entry. fst entry = email_id) ?es)"
      unfolding get_emails_mark [OF assms] using True by (simp add: conj_commute)
    then show ?thesis using True by (simp add: one at)
  next
    case False
    then show ?thesis unfolding get_emails_mark [OF assms] by (simp add: one)
  qed
qed

lemma distinct_mark_all:
  "distinct (map fst (get_emails self)) \<Longrightarrow>
     distinct (map fst (get_emails (mark_all self calls)))"
proof (induction calls arbitrary: self)
  case Nil
  then show ?case by simp
next
  case (Cons call calls)
  obtain email_id email_data sent now later
    where call: "call = (email_id, email_data, sent, now, later)"
    by (cases call) auto
  show ?case
    using Cons.IH [OF distinct_mark [OF Cons.prems, of email_id email_data sent now later]]
    by (simp add: call)
qed

text \<open>
  C6 as stated fails when the retention period is not positive. With \<open>max_history_days = -1\<close>
  and a \<open>last_cleanup\<close> stamp two days old, the second of two calls for the id 42 writes the
  entry and then runs the cleanup, whose cutoff lies a day after the entry's own time even
  on a clock that stands still: the entry is deleted and the ledger is empty, so no record
  is left for the id. With \<open>max_history_days = 0\<close> the same happens as soon as the clock has
  moved on by a microsecond between the writing of the entry and the cleanup.
\<close>

theorem mark_twice_not_positive_retention_counterexample:
  "get_emails (mark_as_processed
      (mark_as_processed
         \<lparr>max_history_days = -1, processed_emails = \<lparr>emails = Some [], last_cleanup = Some 0\<rparr>\<rparr>
         ''42'' [''subject'' \<mapsto> ''First'', ''from'' \<mapsto> ''a@b.com''] False 1000 1000)
      ''42'' [''subject'' \<mapsto> ''Second'', ''from'' \<mapsto> ''a@b.com''] True
      172800000000 172800000000)
   = []
   \<and> \<not> is_processed (mark_as_processed
      (mark_as_processed
         \<lparr>max_history_days = -1, processed_emails = \<lparr>emails = Some [], last_cleanup = Some 0\<rparr>\<rparr>
         ''42'' [''subject'' \<mapsto> ''First'', ''from'' \<mapsto> ''a@b.com''] False 1000 1000)
      ''42'' [''subject'' \<mapsto> ''Second'', ''from'' \<mapsto> ''a@b.com''] True
      172800000000 172800000000) ''42''
   \<and> get_emails (mark_as_processed
      (mark_as_processed
         \<lparr>max_history_days = 0, processed_emails = \<lparr>emails = Some [], last_cleanup = Some 0\<rparr>\<rparr>
         ''42'' [''subject'' \<mapsto> ''First'', ''from'' \<mapsto> ''a@b.com''] False 1000 1001)
      ''42'' [''subject'' \<mapsto> ''Second'', ''from'' \<mapsto> ''a@b.com''] True
      172800000000 172800000001)
   = []"
  by code_simp

text \<open>
  C6, amended. On a ledger with distinct keys (a dictionary), two calls of
  \<open>mark_as_processed\<close> with the same id leave exactly one entry for the id, holding what the
  second call wrote, unless the second call ends with the periodic cleanup and the entry
  it has just written is already older than the cleanup's cutoff, the reading \<open>later\<close>
  minus \<open>max_history_days\<close> days: then no entry is left for the id. On a clock that does not
  run backwards the exception needs a retention period that is negative, zero, or shorter
  than the running time of the call. In every case, after any sequence of calls the keys
  are still distinct: no id has more than one entry.
\<close>

theorem mark_as_processed_upserts:
  assumes "distinct (map fst (get_emails self))"
  shows "filter (\<lambda>entry. fst entry = email_id)
           (get_emails (mark_as_processed
              (mark_as_processed self email_id data1 sent1 now1 later1)
              email_id data2 sent2 now2 later2))
         = (if cleanup_due (mark_as_processed self email_id data1 sent1 now1 later1) later2
               \<and> now2 < cutoff_date self later2
            then []
            else [(email_id, ledger_entry data2 sent2 now2)])
       \<and> distinct (map fst (get_emails (mark_all self calls)))
       \<and> (\<forall>k. length (filter (\<lambda>entry. fst entry = k) (get_emails (mark_all self calls))) \<le> 1)"
proof (intro conjI allI)
  let ?first = "mark_as_processed self email_id data1 sent1 now1 later1"
  have d1: "distinct (map fst (get_emails ?first))"
    by (rule distinct_mark [OF assms])
  show "filter (\<lambda>entry. fst entry = email_id)
           (get_emails (mark_as_processed ?first email_id data2 sent2 now2 later2))
         = (if cleanup_due ?first later2 \<and> now2 < cutoff_date self later2 then []
            else [(email_id, ledger_entry data2 sent2 now2)])"
    using records_for_key_mark [OF d1, of email_id data2 sent2 now2 later2]
    by (simp only: cutoff_date_mark)
  show d: "distinct (map fst (get_emails (mark_all self calls)))"
    by (rule distinct_mark_all [OF assms])
  show "length (filter (\<lambda>entry. fst entry = k) (get_emails (mark_all self calls))) \<le> 1" for k
    by (rule at_most_one_record_for_key [OF d])
qed

text \<open>
  The default retention of seven days and an empty ledger whose last cleanup is two days
  before the second call for the id 42, with a call for another id in between: the second
  call for 42 runs the cleanup, the entry it wrote is newer than the cutoff, and the one
  entry left for 42 is the second call's, in the place of the first.
\<close>

theorem mark_as_processed_upserts_witness:
  "cleanup_due
     (mark_as_processed
        \<lparr>max_history_days = 7, processed_emails = \<lparr>emails = Some [], last_cleanup = Some 0\<rparr>\<rparr>
        ''42'' [''subject'' \<mapsto> ''First'', ''from'' \<mapsto> ''a@b.com''] False 1000 1005)
     172800000500
   \<and> filter (\<lambda>entry. fst entry = ''42'')
     (get_emails (mark_as_processed
        (mark_as_processed
           \<lparr>max_history_days = 7, processed_emails = \<lparr>emails = Some [], last_cleanup = Some 0\<rparr>\<rparr>
           ''42'' [''subject'' \<mapsto> ''First'', ''from'' \<mapsto> ''a@b.com''] False 1000 1005)
        ''42'' [''subject'' \<mapsto> ''Second'', ''from'' \<mapsto> ''a@b.com''] True
        172800000000 172800000500))
     = [(''42'', \<lparr>processed_at = 172800000000, rec_subject = ''Second'', rec_from = ''a@b.com'',
                  rec_category = ''unknown'', response_sent = True\<rparr>)]
   \<and> distinct (map fst (get_emails (mark_all
        \<lparr>max_history_days = 7, processed_emails = \<lparr>emails = Some [], last_cleanup = Some 0\<rparr>\<rparr>
        [(''42'', [''subject'' \<mapsto> ''First'', ''from'' \<mapsto> ''a@b.com''], False, 1000, 1005),
         (''7'', [''subject'' \<mapsto> ''Other'', ''from'' \<mapsto> ''c@d.com''], True, 2000, 2004),
         (''42'', [''subject'' \<mapsto> ''Second'', ''from'' \<mapsto> ''a@b.com''], True,
          172800000000, 172800000500)])))
   \<and> get_emails (mark_all
        \<lparr>max_history_days = 7, processed_emails = \<lparr>emails = Some [], last_cleanup = Some 0\<rparr>\<rparr>
        [(''42'', [''subject'' \<mapsto> ''First'', ''from'' \<mapsto> ''a@b.com''], False, 1000, 1005),
         (''7'', [''subject'' \<mapsto> ''Other'', ''from'' \<mapsto> ''c@d.com''], True, 2000, 2004),
         (''42'', [''subject'' \<mapsto> ''Second'', ''from'' \<mapsto> ''a@b.com''], True,
          172800000000, 172800000500)])
     = [(''42'', \<lparr>processed_at = 172800000000, rec_subject = ''Second'', rec_from = ''a@b.com'',
                  rec_category = ''unknown'', response_sent = True\<rparr>),
        (''7'', \<lparr>processed_at = 2000, rec_subject = ''Other'', rec_from = ''c@d.com'',
                 rec_category = ''unknown'', response_sent = True\<rparr>)]"
proof (intro conjI)
  let ?t = "\<lparr>max_history_days = 7,
             processed_emails = \<lparr>emails = Some [], last_cleanup = Some 0\<rparr>\<rparr>"
  let ?calls =
    "[(''42'', [''subject'' \<mapsto> ''First'', ''from'' \<mapsto> ''a@b.com''], False, 1000, 1005),
      (''7'', [''subject'' \<mapsto> ''Other'', ''from'' \<mapsto> ''c@d.com''], True, 2000, 2004),
      (''42'', [''subject'' \<mapsto> ''Second'', ''from'' \<mapsto> ''a@b.com''], True,
       172800000000, 172800000500)]"
  have d: "distinct (map fst (get_emails ?t))" by (simp add: get_emails_def)
  have c: "\<not> (172800000000::int) < cutoff_date ?t 172800000500"
    by (simp add: cutoff_date_def timedelta_days_def)
  have e: "ledger_entry [''subject'' \<mapsto> ''Second'', ''from'' \<mapsto> ''a@b.com''] True 172800000000
      = \<lparr>processed_at = 172800000000, rec_subject = ''Second'', rec_from = ''a@b.com'',
         rec_category = ''unknown'', response_sent = True\<rparr>"
    by (simp add: ledger_entry_def dict_get_def)
  note upserts = mark_as_processed_upserts [OF d, of "''42''"
        "[''subject'' \<mapsto> ''First'', ''from'' \<mapsto> ''a@b.com'']" False 1000 1005
        "[''subject'' \<mapsto> ''Second'', ''from'' \<mapsto> ''a@b.com'']" True
        172800000000 172800000500 ?calls]
  show "cleanup_due
     (mark_as_processed ?t
        ''42'' [''subject'' \<mapsto> ''First'', ''from'' \<mapsto> ''a@b.com''] False 1000 1005)
     172800000500"
    by code_simp
  show "filter (\<lambda>entry. fst entry = ''42'')
     (get_emails (mark_as_processed
        (mark_as_processed ?t
           ''42'' [''subject'' \<mapsto> ''First'', ''from'' \<mapsto> ''a@b.com''] False 1000 1005)
        ''42'' [''subject'' \<mapsto> ''Second'', ''from'' \<mapsto> ''a@b.com''] True
        172800000000 172800000500))
     = [(''42'', \<lparr>processed_at = 172800000000, rec_subject = ''Second'', rec_from = ''a@b.com'',
                  rec_category = ''unknown'', response_sent = True\<rparr>)]"
    using upserts c by (simp only: e simp_thms if_False)
  show "distinct (map fst (get_emails (mark_all ?t ?calls)))"
    using upserts by (simp only: simp_thms)
  show "get_emails (mark_all ?t ?calls)
     = [(''42'', \<lparr>processed_at = 172800000000, rec_subject = ''Second'', rec_from = ''a@b.com'',
                  rec_category = ''unknown'', response_sent = True\<rparr>),
        (''7'', \<lparr>processed_at = 2000, rec_subject = ''Other'', rec_from = ''c@d.com'',
                 rec_category = ''unknown'', response_sent = True\<rparr>)]"
    by code_simp
qed

section \<open>Cleanup removes exactly the old entries\<close>

text \<open>
  C7. After \<open>_cleanup_old_entries\<close> the store holds exactly the entries that are not older
  than the cutoff \<open>now - max_history_days\<close>, in their order and unchanged: an entry older
  than the cutoff is absent, an entry newer than the cutoff is still there with the same
  record. The ledger is a dictionary, so its keys are distinct.
\<close>

theorem cleanup_keeps_exactly_recent:
  assumes "distinct (map fst (get_emails self))"
  shows "get_emails (cleanup_old_entries self now)
           = filter (\<lambda>entry. \<not> processed_at (snd entry) < cutoff_date self now)
               (get_emails self)
         \<and> (\<forall>(email_id, data) \<in> set (get_emails self).
               (processed_at data < cutoff_date self now \<longrightarrow>
                  email_id \<notin> fst ` set (get_emails (cleanup_old_entries self now)))
             \<and> (cutoff_date self now < processed_at data \<longrightarrow>
                  map_of (get_emails (cleanup_old_entries self now)) email_id = Some data))"
proof
  show eq: "get_emails (cleanup_old_entries self now)
           = filter (\<lambda>entry. \<not> processed_at (snd entry) < cutoff_date self now)
               (get_emails self)"
    by (rule get_emails_cleanup [OF assms])
  have d: "distinct (map fst (get_emails (cleanup_old_entries self now)))"
    unfolding eq by (rule distinct_map_filter [OF assms])
  show "\<forall>(email_id, data) \<in> set (get_emails self).
               (processed_at data < cutoff_date self now \<longrightarrow>
                  email_id \<notin> fst ` set (get_emails (cleanup_old_entries self now)))
             \<and> (cutoff_date self now < processed_at data \<longrightarrow>
                  map_of (get_emails (cleanup_old_entries self now)) email_id = Some data)"
  proof (intro ballI, clarify, intro conjI impI)
    fix k r
    assume mem: "(k, r) \<in> set (get_emails self)"
    show "k \<notin> fst ` set (get_emails (cleanup_old_entries self now))"
      if old: "processed_at r < cutoff_date self now"
    proof
      assume "k \<in> fst ` set (get_emails (cleanup_old_entries self now))"
      then obtain r' where r': "(k, r') \<in> set (get_emails self)"
          "\<not> processed_at r' < cutoff_date self now"
        unfolding eq by auto
      have "r' = r" using eq_key_imp_eq_value [OF assms r'(1) mem] .
      then show False using r'(2) old by simp
    qed
    show "map_of (get_emails (cleanup_old_entries self now)) k = Some r"
      if new: "cutoff_date self now < processed_at r"
    proof -
      have "(k, r) \<in> set (get_emails (cleanup_old_entries self now))"
        unfolding eq using mem new by simp
      then show ?thesis using d by simp
    qed
  qed
qed

text \<open>
  Retention of one day at the clock reading of three days: the entry of day zero is
  removed, the entry of two and a half days stays.
\<close>

theorem cleanup_keeps_exactly_recent_witness:
  "get_emails (cleanup_old_entries
     \<lparr>max_history_days = 1,
      processed_emails = \<lparr>emails = Some
        [(''1'', \<lparr>processed_at = 0, rec_subject = ''old'', rec_from = ''a@b.com'',
                 rec_category = ''unknown'', response_sent = False\<rparr>),
         (''2'', \<lparr>processed_at = 216000000000, rec_subject = ''new'', rec_from = ''a@b.com'',
                 rec_category = ''unknown'', response_sent = True\<rparr>)],
        last_cleanup = Some 0\<rparr>\<rparr> 259200000000)
   = [(''2'', \<lparr>processed_at = 216000000000, rec_subject = ''new'', rec_from = ''a@b.com'',
               rec_category = ''unknown'', response_sent = True\<rparr>)]"
proof -
  let ?t = "\<lparr>max_history_days = 1,
      processed_emails = \<lparr>emails = Some
        [(''1'', \<lparr>processed_at = 0, rec_subject = ''old'', rec_from = ''a@b.com'',
                 rec_category = ''unknown'', response_sent = False\<rparr>),
         (''2'', \<lparr>processed_at = 216000000000, rec_subject = ''new'', rec_from = ''a@b.com'',
                 rec_category = ''unknown'', response_sent = True\<rparr>)],
        last_cleanup = Some 0\<rparr>\<rparr>"
  have g: "get_emails ?t =
        [(''1'', \<lparr>processed_at = 0, rec_subject = ''old'', rec_from = ''a@b.com'',
                 rec_category = ''unknown'', response_sent = False\<rparr>),
         (''2'', \<lparr>processed_at = 216000000000, rec_subject = ''new'', rec_from = ''a@b.com'',
                 rec_category = ''unknown'', response_sent = True\<rparr>)]"
    by (simp add: get_emails_def)
  have d: "distinct (map fst (get_emails ?t))" by (simp add: g)
  have c: "cutoff_date ?t 259200000000 = 172800000000"
    by (simp add: cutoff_date_def timedelta_days_def)
  show ?thesis
    using cleanup_keeps_exactly_recent [OF d, of 259200000000]
    by (simp add: g c)
qed

section \<open>The capitalisation heuristic\<close>

text \<open>
  The subject is lower-cased before its upper-case characters are counted, so the count is
  zero, the ratio never exceeds one half, and neither the \<open>0.2\<close> nor its reason is ever added.
\<close>

lemma capitalization_reason_absent: "''Excessive capitalization'' \<notin> set (spam_reasons e)"
  by (auto simp: spam_reasons_def caps_fires_never)

text \<open>
  C8. The claim is that a subject more than half upper-case adds \<open>0.2\<close> to the score. The
  subject \<open>HELLO\<close> is entirely upper-case, yet the score of the email is \<open>0\<close> and no reason
  is listed.
\<close>

theorem capitalization_not_counted:
  "(of_nat (length (filter isupper ''HELLO'')) :: rat) / of_nat (length ''HELLO'') > 1 / 2
   \<and> calculate_spam_score
        [''subject'' \<mapsto> ''HELLO'', ''body'' \<mapsto> [], ''from'' \<mapsto> ''a@b.com''] = Inr (0, [])"
  by code_simp

section \<open>Scoring and classification never raise\<close>

lemma dict_get_with_defaults:
  "dict_get (with_defaults e) ''subject'' [] = dict_get e ''subject'' []"
  "dict_get (with_defaults e) ''body'' [] = dict_get e ''body'' []"
  "dict_get (with_defaults e) ''from'' [] = dict_get e ''from'' []"
  by (simp_all add: with_defaults_def dict_get_def)

lemma dict_get_empty: "dict_get Map.empty k d = d"
  by (simp add: dict_get_def)

text \<open>
  C9. On every email whose fields are strings, \<open>calculate_spam_score\<close> and
  \<open>should_skip_email\<close> return a result: the one operation that can raise, the division by
  the length of the subject, is never reached with an empty subject and never divides by
  zero. \<open>_categorize_email\<close>, \<open>_analyze_sentiment\<close> and \<open>_determine_priority\<close> contain no
  operation that can raise on strings, which is why their models return plain values.
  An absent field behaves as the empty string, and the email with no fields at all gets the
  defaults: score \<open>0\<close> with no reason, \<open>customer_inquiry\<close>, \<open>neutral\<close>, \<open>low\<close>.
\<close>

theorem scoring_and_classification_total:
  "(\<exists>score reasons. calculate_spam_score e = Inr (score, reasons))
   \<and> (\<exists>skip reason. should_skip_email e threshold = Inr (skip, reason))
   \<and> (\<exists>acc'. caps_check subject acc = Inr acc')
   \<and> caps_check [] acc = Inr acc
   \<and> calculate_spam_score (with_defaults e) = calculate_spam_score e
   \<and> should_skip_email (with_defaults e) threshold = should_skip_email e threshold
   \<and> categorize_email (with_defaults e) = categorize_email e
   \<and> analyze_sentiment (with_defaults e) = analyze_sentiment e
   \<and> calculate_spam_score Map.empty = Inr (0, [])
   \<and> categorize_email Map.empty = (''customer_inquiry'', [])
   \<and> analyze_sentiment Map.empty = ''neutral''
   \<and> determine_priority Map.empty ''customer_inquiry'' ''neutral'' = ''low''"
proof (intro conjI)
  show "\<exists>score reasons. calculate_spam_score e = Inr (score, reasons)"
    using calculate_spam_score_eq [of e] by blast
  show "\<exists>skip reason. should_skip_email e threshold = Inr (skip, reason)"
    by (cases "payment_scan payment_keywords (lower (dict_get e ''subject'' []))
                 (dict_get e ''from'' [])")
      (auto simp: should_skip_email_def calculate_spam_score_eq Let_def)
  show "\<exists>acc'. caps_check subject acc = Inr acc'"
    using caps_check_eq [of subject acc] by blast
  show "caps_check [] acc = Inr acc"
    by (simp add: caps_check_eq)
  show "calculate_spam_score (with_defaults e) = calculate_spam_score e"
    by (simp only: calculate_spam_score_def dict_get_with_defaults)
  show "should_skip_email (with_defaults e) threshold = should_skip_email e threshold"
    by (simp only: should_skip_email_def calculate_spam_score_def dict_get_with_defaults)
  show "categorize_email (with_defaults e) = categorize_email e"
    by (simp only: categorize_email_def dict_get_with_defaults)
  show "analyze_sentiment (with_defaults e) = analyze_sentiment e"
    by (simp only: analyze_sentiment_def dict_get_with_defaults)
  show "calculate_spam_score Map.empty = Inr (0, [])"
    by code_simp
  show "categorize_email Map.empty = (''customer_inquiry'', [])"
    by code_simp
  show "analyze_sentiment Map.empty = ''neutral''"
    by code_simp
  show "determine_priority Map.empty ''customer_inquiry'' ''neutral'' = ''low''"
    by code_simp
qed

text \<open>An email with a body only: the subject and the sender are absent.\<close>

theorem scoring_and_classification_total_witness:
  "calculate_spam_score [''body'' \<mapsto> ''hello there''] = Inr (0, [])
   \<and> should_skip_email [''body'' \<mapsto> ''hello there''] (1 / 2) = Inr (False, [])
   \<and> calculate_spam_score (with_defaults [''body'' \<mapsto> ''hello there''])
       = calculate_spam_score [''body'' \<mapsto> ''hello there'']
   \<and> categorize_email [''body'' \<mapsto> ''hello there''] = (''customer_inquiry'', [])
   \<and> (\<exists>skip reason. should_skip_email [''body'' \<mapsto> ''hello there''] (1 / 2)
         = Inr (skip, reason))"
proof -
  have 1: "calculate_spam_score [''body'' \<mapsto> ''hello there''] = Inr (0, [])"
    by code_simp
  have 2: "should_skip_email [''body'' \<mapsto> ''hello there''] (1 / 2) = Inr (False, [])"
    by code_simp
  have 3: "categorize_email [''body'' \<mapsto> ''hello there''] = (''customer_inquiry'', [])"
    by code_simp
  show ?thesis
    using scoring_and_classification_total
      [of "[''body'' \<mapsto> ''hello there'']" "1 / 2" "[]" "(0, [])"] 1 2 3
    by simp
qed

section \<open>No-reply addresses behind a display name\<close>

text \<open>
  C10 as stated fails when the display name itself begins like a no-reply address: the
  patterns are matched against the start of the whole field, so this field is recognised
  (and the email skipped for it).
\<close>

theorem no_reply_display_name_counterexample:
  "is_no_reply_address ''noreply@example.com <noreply@example.com>''
   \<and> should_skip_email [''from'' \<mapsto> ''noreply@example.com <noreply@example.com>''] (1 / 2)
       = Inr (True, ''No-reply address'')"
  by code_simp

text \<open>
  C10, amended. For a field \<open>name <addr>\<close>, \<open>is_no_reply_address\<close> returns what it returns
  on the text before the bracket, whatever the bracketed address is: it never looks inside
  the brackets. So when the display name is not itself a no-reply address the function
  returns \<open>False\<close> and \<open>should_skip_email\<close> does not return the no-reply verdict, even if
  \<open>addr\<close> is a no-reply address; whereas \<open>is_suspicious_sender\<close> works on \<open>addr\<close>.
\<close>

theorem no_reply_ignores_bracketed_address:
  "is_no_reply_address (name @ ''<'' @ addr @ ''>'') = is_no_reply_address name
   \<and> (\<not> is_no_reply_address name \<and> dict_get e ''from'' [] = name @ ''<'' @ addr @ ''>''
        \<longrightarrow> should_skip_email e threshold \<noteq> Inr (True, ''No-reply address''))
   \<and> (CHR ''<'' \<notin> set name \<and> addr \<noteq> [] \<and> CHR ''>'' \<notin> set addr
        \<longrightarrow> sender_address (name @ ''<'' @ addr @ ''>'') = addr)"
proof (intro conjI impI)
  show eq: "is_no_reply_address (name @ ''<'' @ addr @ ''>'') = is_no_reply_address name"
    using is_no_reply_address_before_lt [of name "addr @ ''>''"] by simp
  show "should_skip_email e threshold \<noteq> Inr (True, ''No-reply address'')"
    if "\<not> is_no_reply_address name \<and> dict_get e ''from'' [] = name @ ''<'' @ addr @ ''>''"
  proof -
    have "\<not> is_no_reply_address (dict_get e ''from'' [])"
      using that eq by simp
    then show ?thesis
      by (simp add: should_skip_email_def calculate_spam_score_eq payment_scan_reason)
  qed
  show "sender_address (name @ ''<'' @ addr @ ''>'') = addr"
    if "CHR ''<'' \<notin> set name \<and> addr \<noteq> [] \<and> CHR ''>'' \<notin> set addr"
    using that search_angle_display_name [of name addr "[]"]
    by (simp add: sender_address_def)
qed

theorem no_reply_ignores_bracketed_address_witness:
  "is_no_reply_address ''noreply@example.com''
   \<and> \<not> is_no_reply_address ''Service <noreply@example.com>''
   \<and> should_skip_email [''from'' \<mapsto> ''Service <noreply@example.com>''] (1 / 2)
       \<noteq> Inr (True, ''No-reply address'')
   \<and> sender_address ''Service <noreply@example.com>'' = ''noreply@example.com''"
proof -
  have 1: "is_no_reply_address ''noreply@example.com''" by code_simp
  have 2: "\<not> is_no_reply_address ''Service ''" by code_simp
  have 3: "dict_get [''from'' \<mapsto> ''Service <noreply@example.com>''] ''from'' []
             = ''Service '' @ ''<'' @ ''noreply@example.com'' @ ''>''"
    by (simp add: dict_get_def)
  have 4: "CHR ''<'' \<notin> set ''Service '' \<and> ''noreply@example.com'' \<noteq> []
             \<and> CHR ''>'' \<notin> set ''noreply@example.com''" by simp
  show ?thesis
    using no_reply_ignores_bracketed_address
      [of "''Service ''" "''noreply@example.com''"
          "[''from'' \<mapsto> ''Service <noreply@example.com>'']" "1 / 2"] 1 2 3 4
    by simp
qed

end
